theory Spec2Isabelle
  imports Complex_Main
begin

section \<open>The document, the window and the component instance\<close>

text \<open>
  The repository holds two copies of the component: \<^verbatim>\<open>src/scrollactive.vue\<close> and a second
  copy stored as \<^verbatim>\<open>part_000\<close>. Functions that are the same in both copies are modelled
  once; where the copies differ, the function of \<^verbatim>\<open>part_000\<close> carries the suffix
  \<open>_part000\<close> (or its own name, \<open>scrollToTargetElement\<close>).

  JavaScript numbers are modelled as real numbers (exact arithmetic; rounding, NaN and
  the infinities are not represented).
\<close>

text \<open>A layout element: its \<open>offsetTop\<close>, its \<open>clientHeight\<close> and its \<open>offsetParent\<close>
  (\<open>None\<close> is \<open>null\<close>). The offset-parent chain of a DOM element is finite.\<close>

datatype element = Element (offsetTop: real) (clientHeight: real) (offsetParent: "element option")

text \<open>A navigation item (an anchor carrying the class \<open>scrollactive-item\<close>): its identity
  and its \<open>hash\<close>.\<close>

record item =
  ident :: nat
  hash :: string

text \<open>The values \<open>currentItem\<close> and \<open>lastActiveItem\<close> range over: \<open>null\<close>, \<open>undefined\<close>
  or a navigation item (compared by identity).\<close>

datatype itemref = Null | Undefined | Ref nat

text \<open>An argument handed to \<open>scrollToTarget\<close> by a caller.\<close>

datatype jsvalue = JString string | JNumber real | JNull | JUndefined

datatype event = ScrollEvent | ClickEvent item

text \<open>\<open>$emit('itemchanged', event, currentItem, lastActiveItem)\<close>: the event is
  \<open>None\<close> when \<open>onScroll\<close> is called without an argument, the third argument is \<open>None\<close>
  when the call passes only two.\<close>

datatype notification = ItemChanged "event option" itemref "itemref option"

datatype error =
    TargetNotFound string
  | InvalidTarget
  | TypeError
  | EasingError

datatype 'a result = Return 'a | Throw error

text \<open>The variables captured by the nested function \<open>step\<close>.\<close>

record closure =
  startingY :: real
  difference :: real
  easing :: "real \<Rightarrow> real"
  start :: "real option"

text \<open>The props of the component, and the imported \<open>bezierEasing\<close> function (the
  bezier-easing package is not part of the repository: it is a parameter, \<open>None\<close> when the
  call throws).\<close>

record vm =
  activeClass :: string
  offset :: real
  clickToScroll :: bool
  duration :: real
  alwaysTrack :: bool
  bezierEasingValue :: string
  bezierEasing :: "string option \<Rightarrow> string option \<Rightarrow> string option \<Rightarrow> string option
                   \<Rightarrow> (real \<Rightarrow> real) option"

text \<open>The mutable state: the document (\<open>navItems\<close> is what
  \<open>querySelectorAll('.scrollactive-item')\<close> returns, \<open>getElementById\<close> the lookup by id,
  \<open>classList\<close> and \<open>clickListener\<close> per item identity), the window (the scroll listener,
  \<open>scrollY\<close> which \<open>pageYOffset\<close> aliases, the global \<open>AFRequestID\<close>, the scheduled
  animation-frame callbacks with their handles, the pending timeouts) and the data of the
  component instance.\<close>

record state =
  navItems :: "item list"
  getElementById :: "string \<Rightarrow> element option"
  classList :: "nat \<Rightarrow> string set"
  clickListener :: "nat \<Rightarrow> bool"
  scrollListener :: bool
  scrollY :: real
  AFRequestID :: "nat option"
  frames :: "(nat \<times> closure) list"
  nextFrameId :: nat
  timeouts :: "nat list"
  scrollactiveItems :: "item list option"
  lastActiveItem :: itemref
  emitted :: "notification list"

section \<open>Browser primitives\<close>

definition substr :: "nat \<Rightarrow> string \<Rightarrow> string" where
  "substr n str = drop n str"

definition truthy :: "itemref \<Rightarrow> bool" where
  "truthy r = (case r of Ref _ \<Rightarrow> True | _ \<Rightarrow> False)"

definition classList_remove :: "nat \<Rightarrow> string \<Rightarrow> state \<Rightarrow> state" where
  "classList_remove i c s = s\<lparr>classList := (classList s)(i := classList s i - {c})\<rparr>"

definition classList_add :: "nat \<Rightarrow> string \<Rightarrow> state \<Rightarrow> state" where
  "classList_add i c s = s\<lparr>classList := (classList s)(i := insert c (classList s i))\<rparr>"

definition requestAnimationFrame :: "closure \<Rightarrow> state \<Rightarrow> nat \<times> state" where
  "requestAnimationFrame cb s =
     (nextFrameId s,
      s\<lparr>frames := frames s @ [(nextFrameId s, cb)], nextFrameId := Suc (nextFrameId s)\<rparr>)"

definition cancelAnimationFrame :: "nat option \<Rightarrow> state \<Rightarrow> state" where
  "cancelAnimationFrame h s =
     (case h of
        None \<Rightarrow> s
      | Some n \<Rightarrow> s\<lparr>frames := filter (\<lambda>f. fst f \<noteq> n) (frames s)\<rparr>)"

text \<open>\<open>window.scrollTo(0, y)\<close>: the model keeps the position as written (a browser clamps
  it to the scrollable range of the document).\<close>

definition scrollTo :: "real \<Rightarrow> state \<Rightarrow> state" where
  "scrollTo y s = s\<lparr>scrollY := y\<rparr>"

definition setTimeout :: "nat \<Rightarrow> state \<Rightarrow> state" where
  "setTimeout delay s = s\<lparr>timeouts := timeouts s @ [delay]\<rparr>"

definition emit :: "notification \<Rightarrow> state \<Rightarrow> state" where
  "emit n s = s\<lparr>emitted := emitted s @ [n]\<rparr>"

section \<open>Methods shared by both copies\<close>

text \<open>\<open>getOffsetTop\<close>: the \<open>while (nextElement)\<close> loop with its accumulator.\<close>

fun getOffsetTop_loop :: "real \<Rightarrow> element option \<Rightarrow> real" where
  "getOffsetTop_loop yPosition None = yPosition"
| "getOffsetTop_loop yPosition (Some (Element y h parent)) =
     getOffsetTop_loop (yPosition + y) parent"

definition getOffsetTop :: "element option \<Rightarrow> real" where
  "getOffsetTop element = getOffsetTop_loop 0 element"

text \<open>The chain \<open>element, element.offsetParent, ...\<close> the claim about \<open>getOffsetTop\<close>
  speaks of.\<close>

fun offsetChain :: "element option \<Rightarrow> element list" where
  "offsetChain None = []"
| "offsetChain (Some (Element y h parent)) = Element y h parent # offsetChain parent"

text \<open>\<open>bezierEasingValue.split(',')\<close>.\<close>

fun split_comma :: "string \<Rightarrow> string list" where
  "split_comma [] = [[]]"
| "split_comma (c # cs) =
     (if c = CHR '','' then [] # split_comma cs
      else (case split_comma cs of
              [] \<Rightarrow> [[c]]
            | w # ws \<Rightarrow> (c # w) # ws))"

definition cubicBezierArray :: "vm \<Rightarrow> string list" where
  "cubicBezierArray v = split_comma (bezierEasingValue v)"

definition at_index :: "'a list \<Rightarrow> nat \<Rightarrow> 'a option" where
  "at_index xs i = (if i < length xs then Some (xs ! i) else None)"

definition removeScrollListener :: "state \<Rightarrow> state" where
  "removeScrollListener s = s\<lparr>scrollListener := False\<rparr>"

definition addScrollListener :: "state \<Rightarrow> state" where
  "addScrollListener s = s\<lparr>scrollListener := True\<rparr>"

text \<open>\<open>if (currentItem) currentItem.classList.add(activeClass)\<close>.\<close>

definition addActiveClass :: "vm \<Rightarrow> itemref \<Rightarrow> state \<Rightarrow> state" where
  "addActiveClass v currentItem s =
     (case currentItem of
        Ref i \<Rightarrow> classList_add i (activeClass v) s
      | _ \<Rightarrow> s)"

text \<open>\<open>setScrollactiveItems\<close>: the validating \<open>forEach\<close> (the first item whose hash does
  not resolve throws), then the assignment, then the \<open>forEach\<close> that attaches or detaches
  the click handler of the instance.\<close>

fun validate_forEach :: "state \<Rightarrow> item list \<Rightarrow> error option" where
  "validate_forEach s [] = None"
| "validate_forEach s (scrollactiveItem # rest) =
     (case getElementById s (substr 1 (hash scrollactiveItem)) of
        None \<Rightarrow> Some (TargetNotFound (hash scrollactiveItem))
      | Some target \<Rightarrow> validate_forEach s rest)"

fun click_forEach :: "bool \<Rightarrow> item list \<Rightarrow> state \<Rightarrow> state" where
  "click_forEach attach [] s = s"
| "click_forEach attach (scrollactiveItem # rest) s =
     click_forEach attach rest
       (s\<lparr>clickListener := (clickListener s)(ident scrollactiveItem := attach)\<rparr>)"

definition setScrollactiveItems :: "vm \<Rightarrow> state \<Rightarrow> unit result \<times> state" where
  "setScrollactiveItems v s =
     (let items = navItems s in
      case validate_forEach s items of
        Some e \<Rightarrow> (Throw e, s)
      | None \<Rightarrow>
          (Return (),
           click_forEach (clickToScroll v) items (s\<lparr>scrollactiveItems := Some items\<rparr>)))"

text \<open>\<open>vm.bezierEasing(this.cubicBezierArray[0], ..., this.cubicBezierArray[3])\<close>: an index
  past the end of the array reads \<open>undefined\<close> (\<open>None\<close>).\<close>

definition easingOf :: "vm \<Rightarrow> (real \<Rightarrow> real) option" where
  "easingOf v =
     (let arr = cubicBezierArray v
      in bezierEasing v (at_index arr 0) (at_index arr 1) (at_index arr 2) (at_index arr 3))"

text \<open>The statements that follow the first block of \<open>scrollToTarget\<close> and of
  \<open>scrollToTargetElement\<close>, the same in both copies: the geometry, the easing (the call of
  the package may throw), and the first \<open>requestAnimationFrame(step)\<close>, whose handle is
  dropped.\<close>

definition startAnimation :: "vm \<Rightarrow> element option \<Rightarrow> state \<Rightarrow> unit result \<times> state" where
  "startAnimation v target s =
     (let targetDistanceFromTop = getOffsetTop target;
          startingY' = scrollY s;
          difference' = targetDistanceFromTop - startingY'
      in case easingOf v of
           None \<Rightarrow> (Throw EasingError, s)
         | Some e \<Rightarrow>
             (Return (),
              snd (requestAnimationFrame
                     \<lparr>startingY = startingY', difference = difference', easing = e,
                      start = None\<rparr> s)))"

text \<open>The first statements of \<open>step\<close>, the same in both copies: the start timestamp
  (\<open>if (!start) start = timestamp\<close>: \<open>null\<close> and \<open>0\<close> are both falsy), the clamped progress
  and the position written by \<open>window.scrollTo\<close>. The quotient \<open>progress / vm.duration\<close> is
  a real number only for a nonzero duration.\<close>

definition stepStart :: "closure \<Rightarrow> real \<Rightarrow> real" where
  "stepStart c timestamp =
     (case start c of
        None \<Rightarrow> timestamp
      | Some t \<Rightarrow> if t = 0 then timestamp else t)"

definition stepProgress :: "vm \<Rightarrow> closure \<Rightarrow> real \<Rightarrow> real" where
  "stepProgress v c timestamp =
     (let progress = timestamp - stepStart c timestamp
      in if progress \<ge> duration v then duration v else progress)"

definition perTick :: "vm \<Rightarrow> closure \<Rightarrow> real \<Rightarrow> real" where
  "perTick v c timestamp =
     (let progress = timestamp - stepStart c timestamp;
          progressPercentage = progress / duration v;
          progressPercentage' = (if progressPercentage \<ge> 1 then 1 else progressPercentage)
      in startingY c + easing c progressPercentage' * (difference c - offset v))"

text \<open>\<open>window.AFRequestID = window.requestAnimationFrame(step)\<close>.\<close>

definition rescheduleStep :: "closure \<Rightarrow> state \<Rightarrow> state" where
  "rescheduleStep c s =
     (let (h, s') = requestAnimationFrame c s in s'\<lparr>AFRequestID := Some h\<rparr>)"

section \<open>The copy \<^verbatim>\<open>src/scrollactive.vue\<close>\<close>

fun getCurrentItem_forEach ::
  "vm \<Rightarrow> real \<Rightarrow> item list \<Rightarrow> itemref \<Rightarrow> state \<Rightarrow> itemref result \<times> state" where
  "getCurrentItem_forEach v distanceFromTop [] currentItem s = (Return currentItem, s)"
| "getCurrentItem_forEach v distanceFromTop (scrollactiveItem # rest) currentItem s =
     (let targetId = substr 1 (hash scrollactiveItem);
          target = getElementById s targetId;
          s1 = classList_remove (ident scrollactiveItem) (activeClass v) s
      in case target of
           None \<Rightarrow> (Throw TypeError, s1)
         | Some t \<Rightarrow>
             (let targetInViewTop = getOffsetTop target - offset v;
                  targetInViewBottom = targetInViewTop + clientHeight t;
                  targetIsInView = (distanceFromTop \<ge> targetInViewTop
                                    \<and> distanceFromTop < targetInViewBottom)
              in getCurrentItem_forEach v distanceFromTop rest
                   (if targetIsInView then Ref (ident scrollactiveItem) else currentItem) s1))"

definition getCurrentItem :: "vm \<Rightarrow> state \<Rightarrow> itemref result \<times> state" where
  "getCurrentItem v s =
     (case scrollactiveItems s of
        None \<Rightarrow> (Throw TypeError, s)
      | Some items \<Rightarrow> getCurrentItem_forEach v (scrollY s) items Null s)"

definition onScroll :: "vm \<Rightarrow> event option \<Rightarrow> state \<Rightarrow> unit result \<times> state" where
  "onScroll v ev s =
     (case getCurrentItem v s of
        (Throw e, s1) \<Rightarrow> (Throw e, s1)
      | (Return currentItem, s1) \<Rightarrow>
          (let s2 = (if currentItem \<noteq> lastActiveItem s1
                     then (emit (ItemChanged ev currentItem (Some (lastActiveItem s1))) s1)
                            \<lparr>lastActiveItem := currentItem\<rparr>
                     else s1)
           in (Return (), addActiveClass v currentItem s2)))"

definition scrollToTarget :: "vm \<Rightarrow> jsvalue \<Rightarrow> state \<Rightarrow> unit result \<times> state" where
  "scrollToTarget v targetId s =
     (case targetId of
        JString str \<Rightarrow>
          (let target = getElementById s str;
               s1 = (if \<not> alwaysTrack v
                     then cancelAnimationFrame (AFRequestID s) (removeScrollListener s)
                     else s)
           in startAnimation v target s1)
      | _ \<Rightarrow> (Throw InvalidTarget, s))"

definition itemClickHandler :: "vm \<Rightarrow> item \<Rightarrow> state \<Rightarrow> unit result \<times> state" where
  "itemClickHandler v item s =
     (let targetId = substr 1 (hash item) in
      case scrollToTarget v (JString targetId) s of
        (Throw e, s1) \<Rightarrow> (Throw e, s1)
      | (Return u, s1) \<Rightarrow>
          (Return (), emit (ItemChanged (Some (ClickEvent item)) (Ref (ident item)) None) s1))"

definition step :: "vm \<Rightarrow> closure \<Rightarrow> real \<Rightarrow> state \<Rightarrow> unit result \<times> state" where
  "step v c timestamp s =
     (let s1 = scrollTo (perTick v c timestamp) s in
      if stepProgress v c timestamp < duration v
      then (Return (), rescheduleStep (c\<lparr>start := Some (stepStart c timestamp)\<rparr>) s1)
      else if \<not> alwaysTrack v
      then (case getCurrentItem v s1 of
              (Throw e, s2) \<Rightarrow> (Throw e, s2)
            | (Return currentItem, s2) \<Rightarrow>
                (Return (), setTimeout 100 (addActiveClass v currentItem s2)))
      else (Return (), s1))"

definition mounted :: "vm \<Rightarrow> state \<Rightarrow> unit result \<times> state" where
  "mounted v s =
     (case setScrollactiveItems v s of
        (Throw e, s1) \<Rightarrow> (Throw e, s1)
      | (Return u, s1) \<Rightarrow>
          (case onScroll v None s1 of
             (Throw e, s2) \<Rightarrow> (Throw e, s2)
           | (Return u', s2) \<Rightarrow> (Return (), addScrollListener s2)))"

definition updated :: "vm \<Rightarrow> state \<Rightarrow> unit result \<times> state" where
  "updated v s = setScrollactiveItems v s"

definition beforeDestroy :: "state \<Rightarrow> state" where
  "beforeDestroy s = cancelAnimationFrame (AFRequestID s) (removeScrollListener s)"

section \<open>The copy \<^verbatim>\<open>part_000\<close>\<close>

fun onScroll_forEach_part000 ::
  "vm \<Rightarrow> real \<Rightarrow> item list \<Rightarrow> itemref \<Rightarrow> state \<Rightarrow> itemref \<times> state" where
  "onScroll_forEach_part000 v distanceFromTop [] currentItem s = (currentItem, s)"
| "onScroll_forEach_part000 v distanceFromTop (scrollactiveItem # rest) currentItem s =
     (let s1 = classList_remove (ident scrollactiveItem) (activeClass v) s;
          target = getElementById s (substr 1 (hash scrollactiveItem))
      in onScroll_forEach_part000 v distanceFromTop rest
           (if distanceFromTop \<ge> getOffsetTop target - offset v
            then Ref (ident scrollactiveItem) else currentItem) s1)"

definition onScroll_part000 :: "vm \<Rightarrow> event option \<Rightarrow> state \<Rightarrow> unit result \<times> state" where
  "onScroll_part000 v ev s =
     (case scrollactiveItems s of
        None \<Rightarrow> (Throw TypeError, s)
      | Some items \<Rightarrow>
          (let (currentItem, s1) = onScroll_forEach_part000 v (scrollY s) items Undefined s;
               s2 = (if currentItem \<noteq> lastActiveItem s1
                     then (if truthy (lastActiveItem s1)
                           then emit (ItemChanged ev currentItem (Some (lastActiveItem s1))) s1
                           else s1)\<lparr>lastActiveItem := currentItem\<rparr>
                     else s1)
           in (Return (), addActiveClass v currentItem s2)))"

fun removeActive_forEach :: "vm \<Rightarrow> item list \<Rightarrow> state \<Rightarrow> state" where
  "removeActive_forEach v [] s = s"
| "removeActive_forEach v (scrollactiveItem # rest) s =
     removeActive_forEach v rest (classList_remove (ident scrollactiveItem) (activeClass v) s)"

definition scrollToTargetElement :: "vm \<Rightarrow> item \<Rightarrow> state \<Rightarrow> unit result \<times> state" where
  "scrollToTargetElement v currentTarget s =
     (let target = getElementById s (substr 1 (hash currentTarget)) in
      if \<not> alwaysTrack v
      then (let s1 = cancelAnimationFrame (AFRequestID s) (removeScrollListener s) in
            case scrollactiveItems s1 of
              None \<Rightarrow> (Throw TypeError, s1)
            | Some items \<Rightarrow>
                startAnimation v target
                  (classList_add (ident currentTarget) (activeClass v)
                     (removeActive_forEach v items s1)))
      else startAnimation v target s)"

definition step_part000 :: "vm \<Rightarrow> closure \<Rightarrow> real \<Rightarrow> state \<Rightarrow> unit result \<times> state" where
  "step_part000 v c timestamp s =
     (let s1 = scrollTo (perTick v c timestamp) s in
      if stepProgress v c timestamp < duration v
      then (Return (), rescheduleStep (c\<lparr>start := Some (stepStart c timestamp)\<rparr>) s1)
      else (Return (), addScrollListener s1))"

definition mounted_part000 :: "vm \<Rightarrow> state \<Rightarrow> unit result \<times> state" where
  "mounted_part000 v s =
     (case setScrollactiveItems v s of
        (Throw e, s1) \<Rightarrow> (Throw e, s1)
      | (Return u, s1) \<Rightarrow>
          (case onScroll_part000 v None s1 of
             (Throw e, s2) \<Rightarrow> (Throw e, s2)
           | (Return u', s2) \<Rightarrow> (Return (), addScrollListener s2)))"

section \<open>The browser's event loop\<close>

text \<open>What the browser does with the listeners, callbacks and timers the component
  registered: a scroll event reaches \<open>onScroll\<close> only while the listener is attached, a
  click on an item reaches the click handler only while it is attached to that item, an
  animation frame runs every callback scheduled before it (an exception of a callback is
  reported and does not stop the others), a timeout that fires runs its callback
  (\<open>window.addEventListener('scroll', vm.onScroll)\<close>: the only one the component sets).\<close>

definition scrollEvent :: "vm \<Rightarrow> state \<Rightarrow> unit result \<times> state" where
  "scrollEvent v s = (if scrollListener s then onScroll v (Some ScrollEvent) s else (Return (), s))"

definition clickEvent :: "vm \<Rightarrow> item \<Rightarrow> state \<Rightarrow> unit result \<times> state" where
  "clickEvent v item s =
     (if clickListener s (ident item) then itemClickHandler v item s else (Return (), s))"

fun runCallbacks :: "vm \<Rightarrow> real \<Rightarrow> (nat \<times> closure) list \<Rightarrow> state \<Rightarrow> state" where
  "runCallbacks v timestamp [] s = s"
| "runCallbacks v timestamp ((h, c) # rest) s =
     runCallbacks v timestamp rest (snd (step v c timestamp s))"

definition animationFrame :: "vm \<Rightarrow> real \<Rightarrow> state \<Rightarrow> state" where
  "animationFrame v timestamp s = runCallbacks v timestamp (frames s) (s\<lparr>frames := []\<rparr>)"

fun animationFrames :: "vm \<Rightarrow> real list \<Rightarrow> state \<Rightarrow> state" where
  "animationFrames v [] s = s"
| "animationFrames v (timestamp # rest) s = animationFrames v rest (animationFrame v timestamp s)"

definition timeoutFires :: "state \<Rightarrow> state" where
  "timeoutFires s =
     (case timeouts s of
        [] \<Rightarrow> s
      | delay # rest \<Rightarrow> addScrollListener (s\<lparr>timeouts := rest\<rparr>))"

definition scrollEvent_part000 :: "vm \<Rightarrow> state \<Rightarrow> unit result \<times> state" where
  "scrollEvent_part000 v s =
     (if scrollListener s then onScroll_part000 v (Some ScrollEvent) s else (Return (), s))"




section \<open>A concrete page\<close>

text \<open>Three sections \<open>a\<close>, \<open>b\<close>, \<open>c\<close> at document offsets 0, 800 and 1600, each 800 pixels
  tall, with one navigation item each; the props at their defaults, except the easing:
  for the control points \<open>0,0,1,1\<close> the easing package returns its linear easing, the
  identity, and \<open>linearBezier\<close> stands for the package at that input only.\<close>

definition linearBezier ::
  "string option \<Rightarrow> string option \<Rightarrow> string option \<Rightarrow> string option \<Rightarrow> (real \<Rightarrow> real) option" where
  "linearBezier mX1 mY1 mX2 mY2 =
     (if mX1 = Some ''0'' \<and> mY1 = Some ''0'' \<and> mX2 = Some ''1'' \<and> mY2 = Some ''1''
      then Some (\<lambda>x. x) else None)"

definition page_vm :: vm where
  "page_vm = \<lparr>activeClass = ''is-active'', offset = 20, clickToScroll = True, duration = 600,
               alwaysTrack = False, bezierEasingValue = ''0,0,1,1'',
               bezierEasing = linearBezier\<rparr>"

definition item_a :: item where "item_a = \<lparr>ident = 1, hash = ''#a''\<rparr>"
definition item_b :: item where "item_b = \<lparr>ident = 2, hash = ''#b''\<rparr>"
definition item_c :: item where "item_c = \<lparr>ident = 3, hash = ''#c''\<rparr>"

definition page_elements :: "string \<Rightarrow> element option" where
  "page_elements i =
     (if i = ''a'' then Some (Element 0 800 None)
      else if i = ''b'' then Some (Element 800 800 None)
      else if i = ''c'' then Some (Element 1600 800 None)
      else None)"

definition page :: state where
  "page = \<lparr>navItems = [item_a, item_b, item_c], getElementById = page_elements,
            classList = (\<lambda>i. {}), clickListener = (\<lambda>i. False), scrollListener = False,
            scrollY = 0, AFRequestID = None, frames = [], nextFrameId = 1, timeouts = [],
            scrollactiveItems = None, lastActiveItem = Null, emitted = []\<rparr>"

section \<open>Notions used in the statements\<close>

text \<open>The last element of a list, in list order, that satisfies a predicate.\<close>

fun lastWhere :: "('a \<Rightarrow> bool) \<Rightarrow> 'a list \<Rightarrow> 'a option" where
  "lastWhere P [] = None"
| "lastWhere P (x # xs) =
     (case lastWhere P xs of
        Some y \<Rightarrow> Some y
      | None \<Rightarrow> if P x then Some x else None)"

text \<open>The two qualification tests: the band
  \<open>[offsetTop(target) - offset, offsetTop(target) - offset + clientHeight)\<close> contains the
  reference position \<open>y\<close> (the scan of \<^verbatim>\<open>src/scrollactive.vue\<close>), and the threshold
  \<open>offsetTop(target) - offset\<close> is at most \<open>y\<close> (the scan of \<^verbatim>\<open>part_000\<close>).\<close>

definition inBand :: "vm \<Rightarrow> state \<Rightarrow> real \<Rightarrow> item \<Rightarrow> bool" where
  "inBand v s y it =
     (case getElementById s (substr 1 (hash it)) of
        None \<Rightarrow> False
      | Some t \<Rightarrow> getOffsetTop (Some t) - offset v \<le> y
                  \<and> y < getOffsetTop (Some t) - offset v + clientHeight t)"

definition overThreshold :: "vm \<Rightarrow> state \<Rightarrow> real \<Rightarrow> item \<Rightarrow> bool" where
  "overThreshold v s y it =
     (getOffsetTop (getElementById s (substr 1 (hash it))) - offset v \<le> y)"

text \<open>The identities of the items of a list that carry the active class.\<close>

definition flagged :: "vm \<Rightarrow> state \<Rightarrow> item list \<Rightarrow> nat set" where
  "flagged v s items = {i \<in> ident ` set items. activeClass v \<in> classList s i}"

definition flagOf :: "item option \<Rightarrow> nat set" where
  "flagOf found = (case found of None \<Rightarrow> {} | Some it \<Rightarrow> {ident it})"

text \<open>The state after the active class was removed from every item of a list, and the
  reference a scan returns when it started from \<open>currentItem\<close> and its last qualifying
  item is \<open>found\<close>.\<close>

definition cleared :: "vm \<Rightarrow> item list \<Rightarrow> state \<Rightarrow> state" where
  "cleared v items s =
     s\<lparr>classList := (\<lambda>i. if i \<in> ident ` set items then classList s i - {activeClass v}
                           else classList s i)\<rparr>"

definition chosen :: "itemref \<Rightarrow> item option \<Rightarrow> itemref" where
  "chosen currentItem found = (case found of None \<Rightarrow> currentItem | Some it \<Rightarrow> Ref (ident it))"

text \<open>The page with its three items registered, scrolled to position 810.\<close>

definition page810 :: state where
  "page810 = page\<lparr>scrollactiveItems := Some [item_a, item_b, item_c], scrollY := 810\<rparr>"

text \<open>An item whose hash resolves to no element of the document, and the page after this
  item took the place of the second one in the document (the three original items are
  still the registered ones).\<close>

definition unresolved :: "state \<Rightarrow> item \<Rightarrow> bool" where
  "unresolved s it = (getElementById s (substr 1 (hash it)) = None)"

definition item_x :: item where "item_x = \<lparr>ident = 4, hash = ''#missing''\<rparr>"

definition page_broken :: state where
  "page_broken = page810\<lparr>navItems := [item_a, item_x, item_c]\<rparr>"

section \<open>Notions used in the statements about animations\<close>

text \<open>The callback that the first \<open>requestAnimationFrame(step)\<close> of a scroll schedules (its
  handle and the captured variables), the window after a callback was scheduled, and the
  window after the two statements \<open>removeEventListener('scroll', this.onScroll)\<close> and
  \<open>cancelAnimationFrame(window.AFRequestID)\<close>. The registered page is the concrete page
  after \<open>setScrollactiveItems\<close>.\<close>

definition firstFrame :: "element option \<Rightarrow> (real \<Rightarrow> real) \<Rightarrow> state \<Rightarrow> nat \<times> closure" where
  "firstFrame target e s =
     (nextFrameId s,
      \<lparr>startingY = scrollY s, difference = getOffsetTop target - scrollY s, easing = e,
       start = None\<rparr>)"

definition schedule :: "nat \<times> closure \<Rightarrow> state \<Rightarrow> state" where
  "schedule f s = s\<lparr>frames := frames s @ [f], nextFrameId := Suc (nextFrameId s)\<rparr>"

definition paused :: "state \<Rightarrow> state" where
  "paused s = cancelAnimationFrame (AFRequestID s) (removeScrollListener s)"

definition page_registered :: state where
  "page_registered = snd (setScrollactiveItems page_vm page)"

text \<open>The concrete page after \<open>mounted\<close> of \<^verbatim>\<open>src/scrollactive.vue\<close>.\<close>

definition page_mounted :: state where
  "page_mounted = snd (mounted page_vm page)"

text \<open>The item the scan of \<^verbatim>\<open>src/scrollactive.vue\<close> computes over the registered items
  (\<open>null\<close> when no band contains the scroll position).\<close>

definition currentItemAt :: "vm \<Rightarrow> state \<Rightarrow> item list \<Rightarrow> itemref" where
  "currentItemAt v s items = chosen Null (lastWhere (inBand v s (scrollY s)) items)"

text \<open>The props of the concrete page with \<open>alwaysTrack\<close> switched on.\<close>

definition page_vm_tracking :: vm where
  "page_vm_tracking = page_vm\<lparr>alwaysTrack := True\<rparr>"

definition tracking_first :: state where
  "tracking_first =
     animationFrame page_vm_tracking 1000
       (snd (scrollToTarget page_vm_tracking (JString ''c'') page_mounted))"

text \<open>The same moment with \<open>alwaysTrack\<close> off.\<close>

definition animating_first :: state where
  "animating_first =
     animationFrame page_vm 1000 (snd (scrollToTarget page_vm (JString ''c'') page_mounted))"





text \<open>The frame at timestamp 1600 of the scroll of \<open>animating_first\<close>.\<close>

definition animating_done :: state where
  "animating_done = animationFrame page_vm 1600 animating_first"

text \<open>The mounted concrete page right after \<open>scrollToTarget('c')\<close>.\<close>

definition page_scrolling :: state where
  "page_scrolling = snd (scrollToTarget page_vm (JString ''c'') page_mounted)"

text \<open>The progress ratio handed to the easing function.\<close>

definition progressRatio :: "vm \<Rightarrow> closure \<Rightarrow> real \<Rightarrow> real" where
  "progressRatio v c ts =
     (if (ts - stepStart c ts) / duration v \<ge> 1 then 1 else (ts - stepStart c ts) / duration v)"

section \<open>Notions used in the statements about whole scrolls\<close>

text \<open>What can happen to a mounted instance of \<^verbatim>\<open>src/scrollactive.vue\<close>: the browser runs
  an animation frame, the user scrolls to a position (a scroll event follows), the user
  clicks an item, a caller invokes \<open>scrollToTarget\<close>, the framework calls \<open>updated\<close> or
  \<open>beforeDestroy\<close>, a pending timeout fires. An exception thrown by a handler is reported
  by the browser; the changes made before it stay.\<close>

datatype input =
    AnimationFrame real
  | UserScroll real
  | UserClick item
  | CallScrollToTarget jsvalue
  | HookUpdated
  | HookBeforeDestroy
  | TimerFires

fun dispatch :: "vm \<Rightarrow> input \<Rightarrow> state \<Rightarrow> state" where
  "dispatch v (AnimationFrame timestamp) s = animationFrame v timestamp s"
| "dispatch v (UserScroll y) s = snd (scrollEvent v (s\<lparr>scrollY := y\<rparr>))"
| "dispatch v (UserClick item) s = snd (clickEvent v item s)"
| "dispatch v (CallScrollToTarget targetId) s = snd (scrollToTarget v targetId s)"
| "dispatch v HookUpdated s = snd (updated v s)"
| "dispatch v HookBeforeDestroy s = beforeDestroy s"
| "dispatch v TimerFires s = timeoutFires s"

fun run :: "vm \<Rightarrow> input list \<Rightarrow> state \<Rightarrow> state" where
  "run v [] s = s"
| "run v (i # rest) s = run v rest (dispatch v i s)"


section \<open>Geometry: \<open>getOffsetTop\<close>\<close>

lemma getOffsetTop_loop_sum:
  "getOffsetTop_loop y e = y + sum_list (map offsetTop (offsetChain e))"
  by (induction y e rule: getOffsetTop_loop.induct) simp_all

text \<open>
  Claim C9. For every element, \<open>getOffsetTop(element)\<close> is the sum of \<open>offsetTop\<close> over the
  chain element, its offset parent, the offset parent of that one, and so on until the
  chain ends; it returns 0 for \<open>null\<close>. The function reads no state and writes none, and it
  returns for every argument.
\<close>

theorem getOffsetTop_sum_of_chain:
  "getOffsetTop element = sum_list (map offsetTop (offsetChain element))
   \<and> getOffsetTop None = 0"
  by (simp add: getOffsetTop_def getOffsetTop_loop_sum)

theorem getOffsetTop_sum_of_chain_witness:
  "getOffsetTop (Some (Element 5 10 (Some (Element 7 0 None)))) = 12
   \<and> getOffsetTop None = 0"
  using getOffsetTop_sum_of_chain [of "Some (Element 5 10 (Some (Element 7 0 None)))"]
  by simp

section \<open>The scans of the two copies\<close>

lemma cleared_Nil: "cleared v [] s = s"
  by (simp add: cleared_def)

lemma cleared_Cons:
  "cleared v rest (classList_remove (ident it) (activeClass v) s) = cleared v (it # rest) s"
  by (auto simp: cleared_def classList_remove_def fun_eq_iff)

lemma inBand_cong: "getElementById s1 = getElementById s \<Longrightarrow> inBand v s1 = inBand v s"
  by (simp add: inBand_def fun_eq_iff)

lemma getElementById_classList_remove:
  "getElementById (classList_remove i c s) = getElementById s"
  by (simp add: classList_remove_def)

lemma chosen_lastWhere_Cons:
  "chosen (if P it then Ref (ident it) else cur) (lastWhere P rest)
   = chosen cur (lastWhere P (it # rest))"
  by (simp add: chosen_def split: option.splits)

lemma getCurrentItem_forEach_Return:
  "getCurrentItem_forEach v y items cur s = (Return cur', s1) \<Longrightarrow>
   cur' = chosen cur (lastWhere (inBand v s y) items) \<and> s1 = cleared v items s"
proof (induction items arbitrary: cur s)
  case Nil
  then show ?case by (simp add: chosen_def cleared_Nil)
next
  case (Cons it rest)
  let ?s1 = "classList_remove (ident it) (activeClass v) s"
  from Cons.prems obtain t where t: "getElementById s (substr 1 (hash it)) = Some t"
    by (auto simp: Let_def split: option.splits)
  have band: "inBand v s y it
      = (getOffsetTop (Some t) - offset v \<le> y \<and> y < getOffsetTop (Some t) - offset v + clientHeight t)"
    using t by (simp add: inBand_def)
  from Cons.prems t band
  have rec: "getCurrentItem_forEach v y rest (if inBand v s y it then Ref (ident it) else cur) ?s1
             = (Return cur', s1)"
    by (simp add: Let_def)
  from Cons.IH[OF rec]
  have "cur' = chosen (if inBand v s y it then Ref (ident it) else cur) (lastWhere (inBand v ?s1 y) rest)"
    and "s1 = cleared v rest ?s1" by simp_all
  moreover have "inBand v ?s1 = inBand v s"
    by (rule inBand_cong) (rule getElementById_classList_remove)
  ultimately show ?case
    by (simp only: chosen_lastWhere_Cons cleared_Cons)
qed

lemma overThreshold_cong:
  "getElementById s1 = getElementById s \<Longrightarrow> overThreshold v s1 = overThreshold v s"
  by (simp add: overThreshold_def fun_eq_iff)

lemma onScroll_forEach_part000_eq:
  "onScroll_forEach_part000 v y items cur s
   = (chosen cur (lastWhere (overThreshold v s y) items), cleared v items s)"
proof (induction items arbitrary: cur s)
  case Nil
  show ?case by (simp add: chosen_def cleared_Nil)
next
  case (Cons it rest)
  let ?s1 = "classList_remove (ident it) (activeClass v) s"
  have same: "overThreshold v ?s1 = overThreshold v s"
    by (rule overThreshold_cong) (rule getElementById_classList_remove)
  have "onScroll_forEach_part000 v y (it # rest) cur s
        = onScroll_forEach_part000 v y rest
            (if overThreshold v s y it then Ref (ident it) else cur) ?s1"
    by (simp add: Let_def overThreshold_def)
  also have "\<dots> = (chosen (if overThreshold v s y it then Ref (ident it) else cur)
                       (lastWhere (overThreshold v s y) rest), cleared v rest ?s1)"
    by (simp only: Cons.IH same)
  finally show ?case
    by (simp only: chosen_lastWhere_Cons cleared_Cons)
qed

lemma lastWhere_Some: "lastWhere P xs = Some x \<Longrightarrow> x \<in> set xs \<and> P x"
  by (induction xs) (auto split: option.splits if_splits)

lemma lastWhere_None: "lastWhere P xs = None \<Longrightarrow> \<forall>x \<in> set xs. \<not> P x"
  by (induction xs) (auto split: option.splits if_splits)

lemma flagged_classList:
  "classList s2 = classList s1 \<Longrightarrow> flagged v s2 items = flagged v s1 items"
  by (simp add: flagged_def)

lemma flagged_cleared: "flagged v (cleared v items s) items = {}"
  by (auto simp: flagged_def cleared_def)

lemma flagged_addActiveClass:
  assumes "flagged v s2 items = {}" and "\<not> truthy r"
    and "\<And>it. found = Some it \<Longrightarrow> it \<in> set items"
  shows "flagged v (addActiveClass v (chosen r found) s2) items
         = (case found of None \<Rightarrow> {} | Some it \<Rightarrow> {ident it})"
  using assms
  by (cases found; cases r)
     (auto simp: flagged_def addActiveClass_def chosen_def classList_add_def truthy_def)

lemma card_flagOf: "card (flagOf found) \<le> 1"
  by (simp add: flagOf_def split: option.splits)

lemma onScroll_flagged:
  assumes items: "scrollactiveItems s = Some items"
    and run: "onScroll v ev s = (Return (), s')"
  shows "flagged v s' items = flagOf (lastWhere (inBand v s (scrollY s)) items)"
proof -
  let ?found = "lastWhere (inBand v s (scrollY s)) items"
  from run obtain cur s1 where scan: "getCurrentItem v s = (Return cur, s1)"
    by (auto simp: onScroll_def split: prod.splits result.splits)
  with items have loop: "getCurrentItem_forEach v (scrollY s) items Null s = (Return cur, s1)"
    by (simp add: getCurrentItem_def)
  from getCurrentItem_forEach_Return[OF loop]
  have cur: "cur = chosen Null ?found" and s1: "s1 = cleared v items s" by simp_all
  define s2 where "s2 = (if cur \<noteq> lastActiveItem s1
        then (emit (ItemChanged ev cur (Some (lastActiveItem s1))) s1)\<lparr>lastActiveItem := cur\<rparr>
        else s1)"
  have "classList s2 = classList s1" by (simp add: s2_def emit_def)
  then have empty: "flagged v s2 items = {}"
    using flagged_classList[of s2 s1 v items] by (simp add: s1 flagged_cleared)
  from run scan have s': "s' = addActiveClass v cur s2"
    by (simp add: onScroll_def s2_def Let_def)
  have "flagged v (addActiveClass v (chosen Null ?found) s2) items
        = (case ?found of None \<Rightarrow> {} | Some it \<Rightarrow> {ident it})"
    by (rule flagged_addActiveClass[OF empty]) (auto simp: truthy_def dest: lastWhere_Some)
  then show ?thesis by (simp add: s' cur flagOf_def)
qed

lemma onScroll_part000_flagged:
  assumes items: "scrollactiveItems s = Some items"
  shows "\<exists>s'. onScroll_part000 v ev s = (Return (), s')
            \<and> flagged v s' items = flagOf (lastWhere (overThreshold v s (scrollY s)) items)"
proof -
  let ?found = "lastWhere (overThreshold v s (scrollY s)) items"
  let ?cur = "chosen Undefined ?found"
  let ?s1 = "cleared v items s"
  define s2 where "s2 = (if ?cur \<noteq> lastActiveItem ?s1
        then (if truthy (lastActiveItem ?s1)
              then emit (ItemChanged ev ?cur (Some (lastActiveItem ?s1))) ?s1
              else ?s1)\<lparr>lastActiveItem := ?cur\<rparr>
        else ?s1)"
  have run: "onScroll_part000 v ev s = (Return (), addActiveClass v ?cur s2)"
    by (simp add: onScroll_part000_def items onScroll_forEach_part000_eq s2_def Let_def)
  have "classList s2 = classList ?s1" by (simp add: s2_def emit_def)
  then have empty: "flagged v s2 items = {}"
    using flagged_classList[of s2 ?s1 v items] by (simp add: flagged_cleared)
  have "flagged v (addActiveClass v ?cur s2) items
        = (case ?found of None \<Rightarrow> {} | Some it \<Rightarrow> {ident it})"
    by (rule flagged_addActiveClass[OF empty]) (auto simp: truthy_def dest: lastWhere_Some)
  with run show ?thesis by (simp add: flagOf_def)
qed

section \<open>Evaluation on the concrete page\<close>

lemmas page_simps = page_def page_vm_def item_a_def item_b_def item_c_def page_elements_def
  substr_def getOffsetTop_def Let_def

lemmas method_simps = onScroll_def getCurrentItem_def onScroll_part000_def
  classList_remove_def classList_add_def addActiveClass_def emit_def truthy_def

section \<open>The active class after a check\<close>

text \<open>
  Claim C8. After a completed check at most one registered item carries the active class.
  With the band test (\<open>onScroll\<close> of \<^verbatim>\<open>src/scrollactive.vue\<close>) the flagged items are exactly
  the last item in source order whose band
  \<open>[offsetTop(target) - offset, offsetTop(target) - offset + clientHeight)\<close> contains the
  scroll position, or none when no band contains it. With the threshold test
  (\<open>onScroll\<close> of \<^verbatim>\<open>part_000\<close>, which always completes once items are registered) the
  flagged items are exactly the last item in source order whose threshold
  \<open>offsetTop(target) - offset\<close> is at most the scroll position. In both copies the scan
  removes the class from every registered item before the class is added to the current
  one.
\<close>

theorem active_class_exclusive:
  assumes "scrollactiveItems s = Some items"
  shows "(\<forall>s'. onScroll v ev s = (Return (), s') \<longrightarrow>
            flagged v s' items = flagOf (lastWhere (inBand v s (scrollY s)) items)
            \<and> card (flagged v s' items) \<le> 1)
       \<and> (\<forall>cur s1. getCurrentItem v s = (Return cur, s1) \<longrightarrow> flagged v s1 items = {})
       \<and> (\<exists>s'. onScroll_part000 v ev s = (Return (), s')
            \<and> flagged v s' items = flagOf (lastWhere (overThreshold v s (scrollY s)) items)
            \<and> card (flagged v s' items) \<le> 1)
       \<and> flagged v (snd (onScroll_forEach_part000 v (scrollY s) items Undefined s)) items = {}"
proof (intro conjI allI impI)
  fix s' assume run: "onScroll v ev s = (Return (), s')"
  from onScroll_flagged[OF assms run]
  show "flagged v s' items = flagOf (lastWhere (inBand v s (scrollY s)) items)" .
  then show "card (flagged v s' items) \<le> 1" by (simp only: card_flagOf)
next
  fix cur s1 assume "getCurrentItem v s = (Return cur, s1)"
  with assms have "getCurrentItem_forEach v (scrollY s) items Null s = (Return cur, s1)"
    by (simp add: getCurrentItem_def)
  from getCurrentItem_forEach_Return[OF this]
  show "flagged v s1 items = {}" by (simp add: flagged_cleared)
next
  from onScroll_part000_flagged[OF assms, of v ev]
  obtain s' where "onScroll_part000 v ev s = (Return (), s')"
    and "flagged v s' items = flagOf (lastWhere (overThreshold v s (scrollY s)) items)"
    by blast
  then show "\<exists>s'. onScroll_part000 v ev s = (Return (), s')
            \<and> flagged v s' items = flagOf (lastWhere (overThreshold v s (scrollY s)) items)
            \<and> card (flagged v s' items) \<le> 1"
    using card_flagOf by metis
next
  show "flagged v (snd (onScroll_forEach_part000 v (scrollY s) items Undefined s)) items = {}"
    by (simp add: onScroll_forEach_part000_eq flagged_cleared)
qed

theorem active_class_exclusive_witness:
  "flagged page_vm (snd (onScroll page_vm None (page810))) [item_a, item_b, item_c] = {2}
   \<and> (\<exists>s'. onScroll_part000 page_vm None page810 = (Return (), s')
          \<and> flagged page_vm s' [item_a, item_b, item_c] = {2})"
proof -
  let ?items = "[item_a, item_b, item_c]"
  have h: "scrollactiveItems page810 = Some ?items"
    by (simp add: page810_def page_def)
  have r: "fst (onScroll page_vm None page810) = Return ()"
    by (simp add: page810_def page_simps method_simps)
  have run: "onScroll page_vm None page810 = (Return (), snd (onScroll page_vm None page810))"
    using r by (metis prod.collapse)
  have b: "lastWhere (inBand page_vm page810 (scrollY page810)) ?items = Some item_b"
    by (simp add: page810_def page_simps inBand_def)
  have u: "lastWhere (overThreshold page_vm page810 (scrollY page810)) ?items = Some item_b"
    by (simp add: page810_def page_simps overThreshold_def)
  have i: "flagOf (Some item_b) = {2}"
    by (simp add: flagOf_def item_b_def)
  from active_class_exclusive [OF h, of page_vm None] run b u i
  show ?thesis by auto
qed

section \<open>Registration: \<open>setScrollactiveItems\<close>\<close>

lemma validate_forEach_None:
  "(validate_forEach s items = None) = (\<forall>it \<in> set items. \<not> unresolved s it)"
  by (induction items) (auto simp: unresolved_def split: option.splits)

lemma validate_forEach_Some:
  "validate_forEach s items = Some e \<Longrightarrow>
   \<exists>it \<in> set items. e = TargetNotFound (hash it) \<and> unresolved s it"
  by (induction items) (auto simp: unresolved_def split: option.splits)

lemma setScrollactiveItems_Throw:
  "setScrollactiveItems v s = (Throw e, s') \<Longrightarrow>
   s' = s \<and> validate_forEach s (navItems s) = Some e"
  by (auto simp: setScrollactiveItems_def Let_def split: option.splits)

lemma setScrollactiveItems_Throw_iff:
  "(\<exists>e s'. setScrollactiveItems v s = (Throw e, s')) = (validate_forEach s (navItems s) \<noteq> None)"
  by (auto simp: setScrollactiveItems_def Let_def split: option.splits)

text \<open>
  Claim C6. \<open>setScrollactiveItems\<close> throws exactly when the hash of some discovered item
  resolves to no element. The error names the hash of such an item, and it is thrown by
  the validating loop, before the assignment of \<open>this.scrollactiveItems\<close> and before any
  click handler is attached or detached: the state after the throw is the state before
  the call, so the registered list and the click bindings are the previous ones. The
  callers \<open>mounted\<close> and \<open>updated\<close> (of both copies) stop at the throw with the state
  unchanged as well.
\<close>

theorem setScrollactiveItems_all_or_nothing:
  "((\<exists>e s'. setScrollactiveItems v s = (Throw e, s'))
      = (\<exists>it \<in> set (navItems s). unresolved s it))
   \<and> (\<forall>e s'. setScrollactiveItems v s = (Throw e, s') \<longrightarrow>
          s' = s
          \<and> (\<exists>it \<in> set (navItems s). e = TargetNotFound (hash it) \<and> unresolved s it)
          \<and> mounted v s = (Throw e, s)
          \<and> updated v s = (Throw e, s)
          \<and> mounted_part000 v s = (Throw e, s))"
proof (intro conjI allI impI)
  show "(\<exists>e s'. setScrollactiveItems v s = (Throw e, s'))
      = (\<exists>it \<in> set (navItems s). unresolved s it)"
    using validate_forEach_None[of s "navItems s"]
    by (simp add: setScrollactiveItems_Throw_iff)
next
  fix e s' assume t: "setScrollactiveItems v s = (Throw e, s')"
  from setScrollactiveItems_Throw[OF t]
  have eq: "s' = s" and val: "validate_forEach s (navItems s) = Some e" by simp_all
  show "s' = s" by (rule eq)
  from validate_forEach_Some[OF val]
  show "\<exists>it \<in> set (navItems s). e = TargetNotFound (hash it) \<and> unresolved s it" .
  from t eq show "mounted v s = (Throw e, s)" by (simp add: mounted_def)
  from t eq show "updated v s = (Throw e, s)" by (simp add: updated_def)
  from t eq show "mounted_part000 v s = (Throw e, s)" by (simp add: mounted_part000_def)
qed

theorem setScrollactiveItems_all_or_nothing_witness:
  "\<exists>e. setScrollactiveItems page_vm page_broken = (Throw e, page_broken)
      \<and> mounted page_vm page_broken = (Throw e, page_broken)
      \<and> updated page_vm page_broken = (Throw e, page_broken)
      \<and> e = TargetNotFound ''#missing''
      \<and> scrollactiveItems page_broken = Some [item_a, item_b, item_c]"
proof -
  have "unresolved page_broken item_x"
    by (simp add: unresolved_def page_broken_def page810_def page_simps item_x_def)
  then have "\<exists>it \<in> set (navItems page_broken). unresolved page_broken it"
    by (simp add: page_broken_def)
  with setScrollactiveItems_all_or_nothing [of page_vm page_broken]
  obtain e s' where t: "setScrollactiveItems page_vm page_broken = (Throw e, s')"
    by blast
  with setScrollactiveItems_all_or_nothing [of page_vm page_broken]
  have "s' = page_broken" and "mounted page_vm page_broken = (Throw e, page_broken)"
    and "updated page_vm page_broken = (Throw e, page_broken)"
    and "\<exists>it \<in> set (navItems page_broken). e = TargetNotFound (hash it) \<and> unresolved page_broken it"
    by blast+
  moreover have "\<not> unresolved page_broken item_a" and "\<not> unresolved page_broken item_c"
    by (simp_all add: unresolved_def page_broken_def page810_def page_simps)
  moreover have "navItems page_broken = [item_a, item_x, item_c]" and "hash item_x = ''#missing''"
    by (simp_all add: page_broken_def item_x_def)
  moreover have "scrollactiveItems page_broken = Some [item_a, item_b, item_c]"
    by (simp add: page_broken_def page810_def)
  ultimately show ?thesis using t by auto
qed

section \<open>Starting an animation, and teardown\<close>

lemma startAnimation_Some:
  "easingOf v = Some e \<Longrightarrow>
   startAnimation v target s = (Return (), schedule (firstFrame target e s) s)"
  by (simp add: startAnimation_def requestAnimationFrame_def schedule_def firstFrame_def Let_def)

lemma startAnimation_None:
  "easingOf v = None \<Longrightarrow> startAnimation v target s = (Throw EasingError, s)"
  by (simp add: startAnimation_def)

lemma scrollToTarget_JString:
  "easingOf v = Some e \<Longrightarrow>
   scrollToTarget v (JString str) s =
     (let s1 = (if alwaysTrack v then s else paused s)
      in (Return (), schedule (firstFrame (getElementById s str) e s1) s1))"
  by (simp add: scrollToTarget_def startAnimation_Some Let_def paused_def)

lemma paused_fields:
  "scrollListener (paused s) = False"
  "frames (paused s) = (case AFRequestID s of None \<Rightarrow> frames s
                        | Some n \<Rightarrow> filter (\<lambda>f. fst f \<noteq> n) (frames s))"
  "AFRequestID (paused s) = AFRequestID s"
  "clickListener (paused s) = clickListener s"
  "nextFrameId (paused s) = nextFrameId s"
  "scrollY (paused s) = scrollY s"
  "getElementById (paused s) = getElementById s"
  "emitted (paused s) = emitted s"
  "timeouts (paused s) = timeouts s"
  "classList (paused s) = classList s"
  "scrollactiveItems (paused s) = scrollactiveItems s"
  "lastActiveItem (paused s) = lastActiveItem s"
  by (simp_all add: paused_def cancelAnimationFrame_def removeScrollListener_def split: option.splits)

lemma paused_idem: "paused (paused s) = paused s"
  by (simp add: paused_def cancelAnimationFrame_def removeScrollListener_def split: option.splits)

lemma beforeDestroy_paused: "beforeDestroy s = paused s"
  by (simp add: beforeDestroy_def paused_def)

lemma clickListener_click_forEach:
  "clickListener (click_forEach b items s) i
   = (if i \<in> ident ` set items then b else clickListener s i)"
  by (induction items arbitrary: s) auto

lemma setScrollactiveItems_binds:
  "setScrollactiveItems v s0 = (Return (), s) \<Longrightarrow> it \<in> set (navItems s0) \<Longrightarrow>
   clickListener s (ident it) = clickToScroll v"
  by (auto simp: setScrollactiveItems_def Let_def clickListener_click_forEach split: option.splits)

text \<open>
  Claim C10. \<open>beforeDestroy\<close> detaches the scroll listener and cancels the frame whose
  handle is in \<open>window.AFRequestID\<close>, and changes nothing else: the click handlers stay
  attached. So an item that \<open>setScrollactiveItems\<close> bound with \<open>clickToScroll\<close> enabled is
  still bound after teardown, a click on it still runs \<open>itemClickHandler\<close>, and (when the
  easing package accepts the configured control points) the click schedules the first
  frame of a scroll animation towards the item's target.
\<close>

theorem beforeDestroy_keeps_click_handlers:
  "scrollListener (beforeDestroy s) = False
   \<and> frames (beforeDestroy s) = (case AFRequestID s of None \<Rightarrow> frames s
                                  | Some n \<Rightarrow> filter (\<lambda>f. fst f \<noteq> n) (frames s))
   \<and> beforeDestroy s = s\<lparr>scrollListener := False, frames := frames (beforeDestroy s)\<rparr>
   \<and> clickListener (beforeDestroy s) = clickListener s
   \<and> (\<forall>s0. setScrollactiveItems v s0 = (Return (), s) \<and> clickToScroll v \<and> it \<in> set (navItems s0)
         \<longrightarrow> clickListener (beforeDestroy s) (ident it))
   \<and> (clickListener s (ident it) \<longrightarrow>
         clickEvent v it (beforeDestroy s) = itemClickHandler v it (beforeDestroy s))
   \<and> (\<forall>e. clickListener s (ident it) \<and> easingOf v = Some e \<longrightarrow>
         (\<exists>s'. clickEvent v it (beforeDestroy s) = (Return (), s')
              \<and> frames s' = frames (beforeDestroy s)
                            @ [firstFrame (getElementById s (substr 1 (hash it))) e s]))"
proof (intro conjI allI impI)
  show "scrollListener (beforeDestroy s) = False"
    by (simp add: beforeDestroy_paused paused_fields)
  show "frames (beforeDestroy s) = (case AFRequestID s of None \<Rightarrow> frames s
                                  | Some n \<Rightarrow> filter (\<lambda>f. fst f \<noteq> n) (frames s))"
    by (simp add: beforeDestroy_paused paused_fields)
  show "beforeDestroy s = s\<lparr>scrollListener := False, frames := frames (beforeDestroy s)\<rparr>"
    by (simp add: beforeDestroy_def cancelAnimationFrame_def removeScrollListener_def
        split: option.splits)
  show "clickListener (beforeDestroy s) = clickListener s"
    by (simp add: beforeDestroy_paused paused_fields)
next
  fix s0
  assume "setScrollactiveItems v s0 = (Return (), s) \<and> clickToScroll v \<and> it \<in> set (navItems s0)"
  then show "clickListener (beforeDestroy s) (ident it)"
    using setScrollactiveItems_binds[of v s0 s it]
    by (simp add: beforeDestroy_paused paused_fields)
next
  assume "clickListener s (ident it)"
  then show "clickEvent v it (beforeDestroy s) = itemClickHandler v it (beforeDestroy s)"
    by (simp add: clickEvent_def beforeDestroy_paused paused_fields)
next
  fix e assume a: "clickListener s (ident it) \<and> easingOf v = Some e"
  let ?t = "getElementById s (substr 1 (hash it))"
  let ?d = "paused s"
  let ?s1 = "if alwaysTrack v then ?d else paused ?d"
  have s1: "?s1 = ?d" by (simp add: paused_idem)
  have click: "clickEvent v it ?d
      = (Return (), emit (ItemChanged (Some (ClickEvent it)) (Ref (ident it)) None)
                      (schedule (firstFrame ?t e ?d) ?d))"
    using a
    by (simp add: clickEvent_def itemClickHandler_def scrollToTarget_JString paused_fields
        paused_idem Let_def)
  have ff: "firstFrame ?t e ?d = firstFrame ?t e s"
    by (simp add: firstFrame_def paused_fields)
  show "\<exists>s'. clickEvent v it (beforeDestroy s) = (Return (), s')
              \<and> frames s' = frames (beforeDestroy s)
                            @ [firstFrame (getElementById s (substr 1 (hash it))) e s]"
    using click ff by (simp add: beforeDestroy_paused emit_def schedule_def)
qed

lemma easingOf_page: "easingOf page_vm = Some (\<lambda>x. x)"
  by (simp add: easingOf_def cubicBezierArray_def page_vm_def linearBezier_def at_index_def)

lemma setScrollactiveItems_page:
  "setScrollactiveItems page_vm page = (Return (), page_registered)"
  by (simp add: page_registered_def setScrollactiveItems_def page_simps)

lemma page_registered_fields:
  "frames page_registered = []"
  "AFRequestID page_registered = None"
  "scrollactiveItems page_registered = Some [item_a, item_b, item_c]"
  "getElementById page_registered = page_elements"
  "scrollY page_registered = 0"
  "nextFrameId page_registered = 1"
  "emitted page_registered = []"
  "scrollListener page_registered = False"
  "lastActiveItem page_registered = Null"
  "timeouts page_registered = []"
  by (simp_all add: page_registered_def setScrollactiveItems_def page_simps)

theorem beforeDestroy_keeps_click_handlers_witness:
  "\<exists>s'. clickEvent page_vm item_b (beforeDestroy page_registered) = (Return (), s')
        \<and> frames s' = [(1, \<lparr>startingY = 0, difference = 800, easing = (\<lambda>x. x), start = None\<rparr>)]"
proof -
  have bound: "setScrollactiveItems page_vm page = (Return (), page_registered)
               \<and> clickToScroll page_vm \<and> item_b \<in> set (navItems page)"
    by (simp add: setScrollactiveItems_page) (simp add: page_simps)
  have "clickListener (beforeDestroy page_registered) (ident item_b)"
    using beforeDestroy_keeps_click_handlers [of page_registered page_vm item_b] bound
    by blast
  then have listener: "clickListener page_registered (ident item_b)"
    using beforeDestroy_keeps_click_handlers [of page_registered page_vm item_b] by simp
  have "frames (beforeDestroy page_registered) = []"
    using beforeDestroy_keeps_click_handlers [of page_registered page_vm item_b]
    by (simp add: page_registered_fields)
  moreover have "firstFrame (getElementById page_registered (substr 1 (hash item_b))) (\<lambda>x. x)
                   page_registered
                 = (1, \<lparr>startingY = 0, difference = 800, easing = (\<lambda>x. x), start = None\<rparr>)"
    by (simp add: firstFrame_def page_registered_fields) (simp add: page_simps)
  ultimately show ?thesis
    using beforeDestroy_keeps_click_handlers [of page_registered page_vm item_b]
      listener easingOf_page
    by auto
qed

section \<open>The first check, made by \<open>mounted\<close>\<close>

lemma onScroll_page_registered:
  "onScroll page_vm None page_registered
   = (Return (),
      page_registered\<lparr>classList := (\<lambda>i. {})(1 := {''is-active''}),
                      lastActiveItem := Ref 1,
                      emitted := [ItemChanged None (Ref 1) (Some Null)]\<rparr>)"
  apply (simp add: onScroll_def getCurrentItem_def page_registered_fields)
  apply (simp add: page_registered_def setScrollactiveItems_def page_simps method_simps fun_eq_iff)
  done

lemma mounted_page:
  "mounted page_vm page
   = (Return (),
      page_registered\<lparr>classList := (\<lambda>i. {})(1 := {''is-active''}),
                      lastActiveItem := Ref 1,
                      emitted := [ItemChanged None (Ref 1) (Some Null)],
                      scrollListener := True\<rparr>)"
  by (simp add: mounted_def setScrollactiveItems_page onScroll_page_registered addScrollListener_def)

lemma page_mounted_fields:
  "frames page_mounted = []"
  "AFRequestID page_mounted = None"
  "scrollactiveItems page_mounted = Some [item_a, item_b, item_c]"
  "getElementById page_mounted = page_elements"
  "scrollY page_mounted = 0"
  "nextFrameId page_mounted = 1"
  "emitted page_mounted = [ItemChanged None (Ref 1) (Some Null)]"
  "scrollListener page_mounted = True"
  "lastActiveItem page_mounted = Ref 1"
  "timeouts page_mounted = []"
  "classList page_mounted = (\<lambda>i. {})(1 := {''is-active''})"
  by (simp_all add: page_mounted_def mounted_page page_registered_fields)

text \<open>
  Claim C3 says that the check \<open>mounted\<close> makes never emits \<open>itemchanged\<close>. In
  \<^verbatim>\<open>src/scrollactive.vue\<close> it does: on the concrete page at scroll position 0 the band of the
  first section contains the position, the current item differs from the initial
  \<open>lastActiveItem = null\<close>, and \<open>onScroll\<close> emits. The copy \<^verbatim>\<open>part_000\<close> guards the
  emission with \<open>if (this.lastActiveItem)\<close> and stays silent
  (\<open>mounted_part000_silent\<close> below).
\<close>

theorem mounted_emits_itemchanged:
  "\<exists>s'. mounted page_vm page = (Return (), s')
        \<and> emitted page = []
        \<and> emitted s' = [ItemChanged None (Ref (ident item_a)) (Some Null)]"
  by (simp add: mounted_page) (simp add: page_def item_a_def)

lemma click_forEach_fields:
  "emitted (click_forEach b items s) = emitted s"
  "lastActiveItem (click_forEach b items s) = lastActiveItem s"
  "scrollactiveItems (click_forEach b items s) = scrollactiveItems s"
  "frames (click_forEach b items s) = frames s"
  "scrollListener (click_forEach b items s) = scrollListener s"
  by (induction items arbitrary: s) simp_all

lemma setScrollactiveItems_fields:
  "emitted (snd (setScrollactiveItems v s)) = emitted s"
  "lastActiveItem (snd (setScrollactiveItems v s)) = lastActiveItem s"
  "frames (snd (setScrollactiveItems v s)) = frames s"
  "scrollListener (snd (setScrollactiveItems v s)) = scrollListener s"
  by (simp_all add: setScrollactiveItems_def Let_def click_forEach_fields split: option.splits)

lemma cleared_fields:
  "emitted (cleared v items s) = emitted s"
  "lastActiveItem (cleared v items s) = lastActiveItem s"
  "frames (cleared v items s) = frames s"
  "scrollListener (cleared v items s) = scrollListener s"
  "timeouts (cleared v items s) = timeouts s"
  "scrollY (cleared v items s) = scrollY s"
  "AFRequestID (cleared v items s) = AFRequestID s"
  "nextFrameId (cleared v items s) = nextFrameId s"
  "clickListener (cleared v items s) = clickListener s"
  "scrollactiveItems (cleared v items s) = scrollactiveItems s"
  "getElementById (cleared v items s) = getElementById s"
  by (simp_all add: cleared_def)

lemma addActiveClass_fields:
  "emitted (addActiveClass v r s) = emitted s"
  "lastActiveItem (addActiveClass v r s) = lastActiveItem s"
  "frames (addActiveClass v r s) = frames s"
  "scrollListener (addActiveClass v r s) = scrollListener s"
  "timeouts (addActiveClass v r s) = timeouts s"
  "scrollY (addActiveClass v r s) = scrollY s"
  "AFRequestID (addActiveClass v r s) = AFRequestID s"
  "nextFrameId (addActiveClass v r s) = nextFrameId s"
  "clickListener (addActiveClass v r s) = clickListener s"
  "scrollactiveItems (addActiveClass v r s) = scrollactiveItems s"
  "getElementById (addActiveClass v r s) = getElementById s"
  by (simp_all add: addActiveClass_def classList_add_def split: itemref.splits)

lemma onScroll_part000_emitted:
  "emitted (snd (onScroll_part000 v ev s))
   = (case scrollactiveItems s of
        None \<Rightarrow> emitted s
      | Some items \<Rightarrow>
          (let cur = chosen Undefined (lastWhere (overThreshold v s (scrollY s)) items)
           in if cur \<noteq> lastActiveItem s \<and> truthy (lastActiveItem s)
              then emitted s @ [ItemChanged ev cur (Some (lastActiveItem s))]
              else emitted s))"
  by (simp add: onScroll_part000_def onScroll_forEach_part000_eq Let_def cleared_fields
      addActiveClass_fields emit_def split: option.splits)

lemma mounted_part000_silent:
  assumes fresh: "\<not> truthy (lastActiveItem s)"
  shows "emitted (snd (mounted_part000 v s)) = emitted s"
proof (cases "setScrollactiveItems v s")
  case (Pair r s1)
  have s1: "s1 = snd (setScrollactiveItems v s)" by (simp add: Pair)
  have e1: "emitted s1 = emitted s" and l1: "lastActiveItem s1 = lastActiveItem s"
    by (simp_all add: s1 setScrollactiveItems_fields)
  have quiet: "emitted (snd (onScroll_part000 v None s1)) = emitted s1"
    using fresh by (simp add: onScroll_part000_emitted l1 Let_def split: option.splits)
  show ?thesis
  proof (cases r)
    case (Throw e)
    with Pair e1 show ?thesis by (simp add: mounted_part000_def)
  next
    case (Return u)
    with Pair quiet e1 show ?thesis
      by (cases "onScroll_part000 v None s1")
         (auto simp: mounted_part000_def addScrollListener_def split: result.splits)
  qed
qed

section \<open>\<open>scrollToTarget\<close> and its argument\<close>

lemma scrollToTarget_not_a_string:
  "(\<forall>str. targetId \<noteq> JString str) \<Longrightarrow> scrollToTarget v targetId s = (Throw InvalidTarget, s)"
  by (cases targetId) (simp_all add: scrollToTarget_def)

lemma scrollToTarget_string_returns:
  "easingOf v = Some e \<Longrightarrow> fst (scrollToTarget v (JString str) s) = Return ()"
  by (simp add: scrollToTarget_JString Let_def)

lemma page_vm_fields:
  "alwaysTrack page_vm = False"
  "offset page_vm = 20"
  "duration page_vm = 600"
  "activeClass page_vm = ''is-active''"
  "clickToScroll page_vm = True"
  by (simp_all add: page_vm_def)

text \<open>
  Claim C7 says that \<open>scrollToTarget\<close> fails, and changes nothing, when its argument is not
  a string or resolves to no element. The first half holds
  (\<open>scrollToTarget_not_a_string\<close>). For a string that resolves to no element the method
  does not throw: \<open>getOffsetTop(null)\<close> is 0, the scroll listener is detached and a frame
  of an animation is scheduled. On the mounted concrete page, with the id \<open>nowhere\<close>:
\<close>

theorem scrollToTarget_unresolved_id_animates:
  "getElementById page_mounted ''nowhere'' = None
   \<and> scrollListener page_mounted
   \<and> frames page_mounted = []
   \<and> (\<exists>s'. scrollToTarget page_vm (JString ''nowhere'') page_mounted = (Return (), s')
          \<and> \<not> scrollListener s'
          \<and> frames s' = [(1, \<lparr>startingY = 0, difference = 0, easing = (\<lambda>x. x), start = None\<rparr>)])"
proof -
  have none: "getElementById page_mounted ''nowhere'' = None"
    by (simp add: page_mounted_fields page_elements_def)
  have run: "scrollToTarget page_vm (JString ''nowhere'') page_mounted
      = (Return (), schedule (firstFrame None (\<lambda>x. x) (paused page_mounted)) (paused page_mounted))"
    by (simp add: scrollToTarget_JString [OF easingOf_page] page_vm_fields none Let_def)
  have first: "firstFrame None (\<lambda>x. x) (paused page_mounted)
      = (1, \<lparr>startingY = 0, difference = 0, easing = (\<lambda>x. x), start = None\<rparr>)"
    by (simp add: firstFrame_def paused_fields page_mounted_fields getOffsetTop_def)
  show ?thesis
    using none by (simp add: run first schedule_def paused_fields page_mounted_fields)
qed

section \<open>Where \<open>itemchanged\<close> is emitted\<close>

lemma getCurrentItem_forEach_classList_only:
  "\<exists>f. snd (getCurrentItem_forEach v y items cur s) = s\<lparr>classList := f\<rparr>"
proof (induction items arbitrary: cur s)
  case Nil
  have "s = s\<lparr>classList := classList s\<rparr>" by simp
  then show ?case by (metis getCurrentItem_forEach.simps(1) snd_conv)
next
  case (Cons it rest)
  let ?s1 = "classList_remove (ident it) (activeClass v) s"
  show ?case
  proof (cases "getElementById s (substr 1 (hash it))")
    case None
    then have "snd (getCurrentItem_forEach v y (it # rest) cur s) = ?s1"
      by (simp add: Let_def)
    then show ?thesis by (auto simp: classList_remove_def)
  next
    case (Some t)
    then obtain cur' where
      "snd (getCurrentItem_forEach v y (it # rest) cur s)
       = snd (getCurrentItem_forEach v y rest cur' ?s1)"
      by (simp add: Let_def)
    moreover from Cons.IH[of cur' ?s1] obtain f where
      "snd (getCurrentItem_forEach v y rest cur' ?s1) = ?s1\<lparr>classList := f\<rparr>" by blast
    ultimately have "snd (getCurrentItem_forEach v y (it # rest) cur s) = s\<lparr>classList := f\<rparr>"
      by (simp add: classList_remove_def)
    then show ?thesis by blast
  qed
qed

lemma getCurrentItem_classList_only:
  "\<exists>f. snd (getCurrentItem v s) = s\<lparr>classList := f\<rparr>"
proof (cases "scrollactiveItems s")
  case None
  have "s = s\<lparr>classList := classList s\<rparr>" by simp
  with None show ?thesis by (metis getCurrentItem_def option.simps(4) snd_conv)
next
  case (Some items)
  then show ?thesis
    using getCurrentItem_forEach_classList_only[of v "scrollY s" items Null s]
    by (simp add: getCurrentItem_def)
qed

lemma getCurrentItem_fields:
  "emitted (snd (getCurrentItem v s)) = emitted s"
  "lastActiveItem (snd (getCurrentItem v s)) = lastActiveItem s"
  "frames (snd (getCurrentItem v s)) = frames s"
  "scrollListener (snd (getCurrentItem v s)) = scrollListener s"
  "timeouts (snd (getCurrentItem v s)) = timeouts s"
  "scrollY (snd (getCurrentItem v s)) = scrollY s"
  "AFRequestID (snd (getCurrentItem v s)) = AFRequestID s"
  "nextFrameId (snd (getCurrentItem v s)) = nextFrameId s"
  "clickListener (snd (getCurrentItem v s)) = clickListener s"
  "scrollactiveItems (snd (getCurrentItem v s)) = scrollactiveItems s"
  "getElementById (snd (getCurrentItem v s)) = getElementById s"
  using getCurrentItem_classList_only[of v s] by auto

lemma rescheduleStep_fields:
  "emitted (rescheduleStep c s) = emitted s"
  "lastActiveItem (rescheduleStep c s) = lastActiveItem s"
  "scrollListener (rescheduleStep c s) = scrollListener s"
  "timeouts (rescheduleStep c s) = timeouts s"
  "classList (rescheduleStep c s) = classList s"
  "scrollY (rescheduleStep c s) = scrollY s"
  "frames (rescheduleStep c s) = frames s @ [(nextFrameId s, c)]"
  "AFRequestID (rescheduleStep c s) = Some (nextFrameId s)"
  "nextFrameId (rescheduleStep c s) = Suc (nextFrameId s)"
  by (simp_all add: rescheduleStep_def requestAnimationFrame_def)

lemma step_fields:
  "emitted (snd (step v c ts s)) = emitted s"
  "lastActiveItem (snd (step v c ts s)) = lastActiveItem s"
  "scrollListener (snd (step v c ts s)) = scrollListener s"
  by (cases "getCurrentItem v (scrollTo (perTick v c ts) s)";
      use getCurrentItem_fields[of v "scrollTo (perTick v c ts) s"] in
        \<open>simp add: step_def Let_def rescheduleStep_fields scrollTo_def setTimeout_def
           addActiveClass_fields split: result.splits\<close>)+

lemma startAnimation_fields:
  "emitted (snd (startAnimation v t s)) = emitted s"
  "lastActiveItem (snd (startAnimation v t s)) = lastActiveItem s"
  "scrollListener (snd (startAnimation v t s)) = scrollListener s"
  "classList (snd (startAnimation v t s)) = classList s"
  "timeouts (snd (startAnimation v t s)) = timeouts s"
  by (simp_all add: startAnimation_def requestAnimationFrame_def Let_def split: option.splits)

lemma scrollToTarget_fields:
  "emitted (snd (scrollToTarget v x s)) = emitted s"
  "lastActiveItem (snd (scrollToTarget v x s)) = lastActiveItem s"
  "classList (snd (scrollToTarget v x s)) = classList s"
  "timeouts (snd (scrollToTarget v x s)) = timeouts s"
  by (cases x; simp add: scrollToTarget_def Let_def startAnimation_fields paused_fields
        paused_def[symmetric])+

lemma onScroll_emitted:
  assumes "scrollactiveItems s = Some items"
    and "onScroll v ev s = (Return (), s')"
  shows "emitted s' =
           (if chosen Null (lastWhere (inBand v s (scrollY s)) items) \<noteq> lastActiveItem s
            then emitted s @ [ItemChanged ev (chosen Null (lastWhere (inBand v s (scrollY s)) items))
                                (Some (lastActiveItem s))]
            else emitted s)"
    and "lastActiveItem s' = chosen Null (lastWhere (inBand v s (scrollY s)) items)"
proof -
  from assms(2) obtain cur s1 where scan: "getCurrentItem v s = (Return cur, s1)"
    by (auto simp: onScroll_def split: prod.splits result.splits)
  with assms(1) have "getCurrentItem_forEach v (scrollY s) items Null s = (Return cur, s1)"
    by (simp add: getCurrentItem_def)
  from getCurrentItem_forEach_Return[OF this]
  have cur: "cur = chosen Null (lastWhere (inBand v s (scrollY s)) items)"
    and s1: "s1 = cleared v items s" by simp_all
  from assms(2) scan
  have s': "s' = addActiveClass v cur
                  (if cur \<noteq> lastActiveItem s1
                   then (emit (ItemChanged ev cur (Some (lastActiveItem s1))) s1)
                          \<lparr>lastActiveItem := cur\<rparr>
                   else s1)"
    by (simp add: onScroll_def Let_def)
  show "emitted s' =
           (if chosen Null (lastWhere (inBand v s (scrollY s)) items) \<noteq> lastActiveItem s
            then emitted s @ [ItemChanged ev (chosen Null (lastWhere (inBand v s (scrollY s)) items))
                                (Some (lastActiveItem s))]
            else emitted s)"
    by (simp add: s' addActiveClass_fields emit_def s1 cleared_fields cur[symmetric])
  show "lastActiveItem s' = chosen Null (lastWhere (inBand v s (scrollY s)) items)"
    by (simp add: s' addActiveClass_fields emit_def s1 cleared_fields cur[symmetric])
qed

lemma onScroll_Throw_emitted:
  "onScroll v ev s = (Throw e, s') \<Longrightarrow> emitted s' = emitted s"
  using getCurrentItem_fields(1)[of v s]
  by (auto simp: onScroll_def Let_def split: prod.splits result.splits)

lemma itemClickHandler_emitted:
  "emitted (snd (itemClickHandler v it s)) =
     (case fst (itemClickHandler v it s) of
        Return u \<Rightarrow> emitted s @ [ItemChanged (Some (ClickEvent it)) (Ref (ident it)) None]
      | Throw e \<Rightarrow> emitted s)"
  using scrollToTarget_fields(1)[of v "JString (substr 1 (hash it))" s]
  by (cases "scrollToTarget v (JString (substr 1 (hash it))) s")
     (auto simp: itemClickHandler_def Let_def emit_def split: result.splits)

lemma page_mounted_clickListener: "clickListener page_mounted (ident it) = (ident it \<in> {1, 2, 3})"
  by (simp add: page_mounted_def mounted_page)
     (auto simp: page_registered_def setScrollactiveItems_def page_simps)

text \<open>
  Claim C4 says that \<open>itemchanged\<close> is raised by differing checks only. A click is another
  source: on the mounted concrete page the first item is the last active item, a click on
  it runs no check and leaves \<open>lastActiveItem\<close> as it is, and \<open>itemClickHandler\<close> emits
  \<open>itemchanged(event, item)\<close>.
\<close>

theorem itemchanged_by_click_counterexample:
  "\<exists>s'. clickEvent page_vm item_a page_mounted = (Return (), s')
        \<and> lastActiveItem page_mounted = Ref (ident item_a)
        \<and> lastActiveItem s' = Ref (ident item_a)
        \<and> emitted s' = emitted page_mounted
                         @ [ItemChanged (Some (ClickEvent item_a)) (Ref (ident item_a)) None]"
proof -
  have bound: "clickListener page_mounted (ident item_a)"
    using page_mounted_clickListener [of item_a] by (simp add: item_a_def)
  have ok: "fst (itemClickHandler page_vm item_a page_mounted) = Return ()"
    by (simp add: itemClickHandler_def Let_def scrollToTarget_JString [OF easingOf_page])
  have "emitted (snd (itemClickHandler page_vm item_a page_mounted))
        = emitted page_mounted @ [ItemChanged (Some (ClickEvent item_a)) (Ref (ident item_a)) None]"
    by (simp add: itemClickHandler_emitted ok)
  moreover have "lastActiveItem (snd (itemClickHandler page_vm item_a page_mounted)) = Ref (ident item_a)"
    by (cases "scrollToTarget page_vm (JString (substr 1 (hash item_a))) page_mounted";
        use scrollToTarget_fields(2)[of page_vm "JString (substr 1 (hash item_a))" page_mounted] in
        \<open>simp add: itemClickHandler_def Let_def emit_def page_mounted_fields item_a_def
            split: result.splits\<close>)
  moreover have "lastActiveItem page_mounted = Ref (ident item_a)"
    by (simp add: page_mounted_fields item_a_def)
  ultimately show ?thesis
    using ok bound by (simp add: clickEvent_def) (metis prod.collapse)
qed

text \<open>
  Claim C4, amended. A check (\<open>onScroll\<close> of \<^verbatim>\<open>src/scrollactive.vue\<close>) that completes emits
  exactly one \<open>itemchanged(event, newItem, oldItem)\<close> when the item it computes differs by
  identity from \<open>lastActiveItem\<close>, and none when it is the same; it then records the item
  as \<open>lastActiveItem\<close>. A check that throws emits nothing. Besides checks,
  \<open>itemClickHandler\<close> emits one \<open>itemchanged(event, item)\<close>, with no old item, on every
  click it handles to the end. No other method emits: not \<open>step\<close> (the scan on its
  completion frame included), \<open>scrollToTarget\<close>, \<open>setScrollactiveItems\<close>, \<open>beforeDestroy\<close>
  or the deferred re-attachment of the listener.
\<close>

theorem itemchanged_sources:
  "(\<forall>items s'. scrollactiveItems s = Some items \<and> onScroll v ev s = (Return (), s') \<longrightarrow>
       emitted s' = (if currentItemAt v s items \<noteq> lastActiveItem s
                     then emitted s @ [ItemChanged ev (currentItemAt v s items)
                                         (Some (lastActiveItem s))]
                     else emitted s)
       \<and> lastActiveItem s' = currentItemAt v s items)
   \<and> (\<forall>e s'. onScroll v ev s = (Throw e, s') \<longrightarrow> emitted s' = emitted s)
   \<and> (\<forall>s'. itemClickHandler v it s = (Return (), s') \<longrightarrow>
          emitted s' = emitted s @ [ItemChanged (Some (ClickEvent it)) (Ref (ident it)) None])
   \<and> (\<forall>e s'. itemClickHandler v it s = (Throw e, s') \<longrightarrow> emitted s' = emitted s)
   \<and> emitted (snd (step v c ts s)) = emitted s
   \<and> emitted (snd (scrollToTarget v x s)) = emitted s
   \<and> emitted (snd (setScrollactiveItems v s)) = emitted s
   \<and> emitted (beforeDestroy s) = emitted s
   \<and> emitted (timeoutFires s) = emitted s"
proof (intro conjI allI impI)
  fix items s'
  assume a: "scrollactiveItems s = Some items \<and> onScroll v ev s = (Return (), s')"
  then show "emitted s' = (if currentItemAt v s items \<noteq> lastActiveItem s
                     then emitted s @ [ItemChanged ev (currentItemAt v s items)
                                         (Some (lastActiveItem s))]
                     else emitted s)"
    using onScroll_emitted(1)[of s items v ev s'] by (simp add: currentItemAt_def)
  from a show "lastActiveItem s' = currentItemAt v s items"
    using onScroll_emitted(2)[of s items v ev s'] by (simp add: currentItemAt_def)
next
  fix e s' assume "onScroll v ev s = (Throw e, s')"
  then show "emitted s' = emitted s" by (rule onScroll_Throw_emitted)
next
  fix s' assume "itemClickHandler v it s = (Return (), s')"
  then show "emitted s' = emitted s @ [ItemChanged (Some (ClickEvent it)) (Ref (ident it)) None]"
    using itemClickHandler_emitted[of v it s] by simp
next
  fix e s' assume "itemClickHandler v it s = (Throw e, s')"
  then show "emitted s' = emitted s"
    using itemClickHandler_emitted[of v it s] by simp
next
  show "emitted (snd (step v c ts s)) = emitted s" by (rule step_fields)
  show "emitted (snd (scrollToTarget v x s)) = emitted s" by (rule scrollToTarget_fields)
  show "emitted (snd (setScrollactiveItems v s)) = emitted s" by (rule setScrollactiveItems_fields)
  show "emitted (beforeDestroy s) = emitted s" by (simp add: beforeDestroy_paused paused_fields)
  show "emitted (timeoutFires s) = emitted s"
    by (simp add: timeoutFires_def addScrollListener_def split: list.splits)
qed

theorem itemchanged_sources_witness:
  "emitted (snd (onScroll page_vm (Some ScrollEvent) page810))
     = [ItemChanged (Some ScrollEvent) (Ref 2) (Some Null)]
   \<and> lastActiveItem (snd (onScroll page_vm (Some ScrollEvent) page810)) = Ref 2"
proof -
  let ?items = "[item_a, item_b, item_c]"
  have h: "scrollactiveItems page810 = Some ?items"
    by (simp add: page810_def page_def)
  have r: "fst (onScroll page_vm (Some ScrollEvent) page810) = Return ()"
    by (simp add: page810_def page_simps method_simps)
  have run: "onScroll page_vm (Some ScrollEvent) page810
             = (Return (), snd (onScroll page_vm (Some ScrollEvent) page810))"
    using r by (metis prod.collapse)
  have cur: "currentItemAt page_vm page810 ?items = Ref 2"
    by (simp add: currentItemAt_def chosen_def page810_def page_simps inBand_def)
  have old: "lastActiveItem page810 = Null" "emitted page810 = []"
    by (simp_all add: page810_def page_def)
  from itemchanged_sources [of page810 page_vm "Some ScrollEvent"] h run
  have "emitted (snd (onScroll page_vm (Some ScrollEvent) page810))
          = (if currentItemAt page_vm page810 ?items \<noteq> lastActiveItem page810
             then emitted page810 @ [ItemChanged (Some ScrollEvent)
                    (currentItemAt page_vm page810 ?items) (Some (lastActiveItem page810))]
             else emitted page810)
        \<and> lastActiveItem (snd (onScroll page_vm (Some ScrollEvent) page810))
          = currentItemAt page_vm page810 ?items"
    by blast
  then show ?thesis by (simp add: cur old)
qed

section \<open>One outstanding animation frame\<close>

lemma filter_recorded:
  "(case h of None \<Rightarrow> fs | Some n \<Rightarrow> filter (\<lambda>f. fst f \<noteq> n) fs)
   = filter (\<lambda>f. Some (fst f) \<noteq> h) fs"
  by (cases h) auto

lemma firstFrame_paused: "firstFrame t e (paused s) = firstFrame t e s"
  by (simp add: firstFrame_def paused_fields)

lemma scrollToTarget_frames:
  assumes "easingOf v = Some e"
  shows "\<exists>s'. scrollToTarget v (JString str) s = (Return (), s')
            \<and> frames s' = (if alwaysTrack v then frames s
                            else filter (\<lambda>f. Some (fst f) \<noteq> AFRequestID s) (frames s))
                           @ [firstFrame (getElementById s str) e s]"
  by (simp add: scrollToTarget_JString [OF assms] Let_def schedule_def paused_fields
      firstFrame_paused filter_recorded)

lemma removeActive_forEach_eq: "removeActive_forEach v items s = cleared v items s"
  by (induction items arbitrary: s) (simp_all add: cleared_Nil cleared_Cons)

lemma classList_add_fields:
  "frames (classList_add i c s) = frames s"
  "nextFrameId (classList_add i c s) = nextFrameId s"
  "scrollY (classList_add i c s) = scrollY s"
  "scrollListener (classList_add i c s) = scrollListener s"
  "timeouts (classList_add i c s) = timeouts s"
  by (simp_all add: classList_add_def)

lemma scrollToTargetElement_frames:
  assumes "easingOf v = Some e" and "scrollactiveItems s = Some items"
  shows "\<exists>s'. scrollToTargetElement v it s = (Return (), s')
            \<and> frames s' = (if alwaysTrack v then frames s
                            else filter (\<lambda>f. Some (fst f) \<noteq> AFRequestID s) (frames s))
                           @ [firstFrame (getElementById s (substr 1 (hash it))) e s]"
  using assms(2)
  by (simp add: scrollToTargetElement_def Let_def startAnimation_Some [OF assms(1)]
      paused_def[symmetric] paused_fields removeActive_forEach_eq schedule_def
      cleared_fields classList_add_fields firstFrame_def filter_recorded)

lemma animationFrame_single:
  "frames s = [(h, c)] \<Longrightarrow> animationFrame v ts s = snd (step v c ts (s\<lparr>frames := []\<rparr>))"
  by (simp add: animationFrame_def)

lemma step_reschedules:
  "stepProgress v c ts < duration v \<Longrightarrow>
   step v c ts s = (Return (), rescheduleStep (c\<lparr>start := Some (stepStart c ts)\<rparr>)
                                 (scrollTo (perTick v c ts) s))"
  by (simp add: step_def Let_def)

lemma step_part000_reschedules:
  "stepProgress v c ts < duration v \<Longrightarrow>
   step_part000 v c ts s = (Return (), rescheduleStep (c\<lparr>start := Some (stepStart c ts)\<rparr>)
                                 (scrollTo (perTick v c ts) s))"
  by (simp add: step_part000_def Let_def)

lemma page_vm_tracking_fields:
  "alwaysTrack page_vm_tracking = True"
  "offset page_vm_tracking = 20"
  "duration page_vm_tracking = 600"
  "easingOf page_vm_tracking = Some (\<lambda>x. x)"
  using easingOf_page
  by (simp_all add: page_vm_tracking_def page_vm_def easingOf_def cubicBezierArray_def)

lemma stepProgress_first:
  "start c = None \<Longrightarrow> 0 < duration v \<Longrightarrow> stepProgress v c ts = 0"
  by (simp add: stepProgress_def stepStart_def)

lemma first_frame_run:
  assumes e: "easingOf v = Some e" and d: "0 < duration v" and empty: "frames s = []"
  shows "frames (animationFrame v ts (snd (scrollToTarget v (JString str) s)))
         = [(Suc (nextFrameId s),
             \<lparr>startingY = scrollY s, difference = getOffsetTop (getElementById s str) - scrollY s,
              easing = e, start = Some ts\<rparr>)]"
    and "AFRequestID (animationFrame v ts (snd (scrollToTarget v (JString str) s)))
         = Some (Suc (nextFrameId s))"
    and "nextFrameId (animationFrame v ts (snd (scrollToTarget v (JString str) s)))
         = Suc (Suc (nextFrameId s))"
    and "scrollListener (animationFrame v ts (snd (scrollToTarget v (JString str) s)))
         = (alwaysTrack v \<and> scrollListener s)"
    and "scrollactiveItems (animationFrame v ts (snd (scrollToTarget v (JString str) s)))
         = scrollactiveItems s"
    and "getElementById (animationFrame v ts (snd (scrollToTarget v (JString str) s)))
         = getElementById s"
    and "scrollY (animationFrame v ts (snd (scrollToTarget v (JString str) s)))
         = scrollY s + e 0 * (getOffsetTop (getElementById s str) - scrollY s - offset v)"
    and "timeouts (animationFrame v ts (snd (scrollToTarget v (JString str) s))) = timeouts s"
proof -
  let ?c = "\<lparr>startingY = scrollY s, difference = getOffsetTop (getElementById s str) - scrollY s,
             easing = e, start = None\<rparr>"
  let ?s1 = "if alwaysTrack v then s else paused s"
  let ?s0 = "schedule (nextFrameId s, ?c) ?s1"
  have s0: "snd (scrollToTarget v (JString str) s) = ?s0"
    by (simp add: scrollToTarget_JString [OF e] Let_def firstFrame_def paused_fields)
  have fr: "frames ?s0 = [(nextFrameId s, ?c)]"
    by (simp add: schedule_def paused_fields empty split: option.splits)
  have prog: "stepProgress v ?c ts < duration v"
    using d by (simp add: stepProgress_first)
  have eq: "animationFrame v ts (snd (scrollToTarget v (JString str) s))
      = rescheduleStep (?c\<lparr>start := Some (stepStart ?c ts)\<rparr>)
          (scrollTo (perTick v ?c ts) (?s0\<lparr>frames := []\<rparr>))"
    by (simp only: s0 animationFrame_single [OF fr] step_reschedules [OF prog] snd_conv)
  show "frames (animationFrame v ts (snd (scrollToTarget v (JString str) s)))
         = [(Suc (nextFrameId s),
             \<lparr>startingY = scrollY s, difference = getOffsetTop (getElementById s str) - scrollY s,
              easing = e, start = Some ts\<rparr>)]"
    by (simp add: eq rescheduleStep_fields scrollTo_def schedule_def paused_fields stepStart_def)
  show "AFRequestID (animationFrame v ts (snd (scrollToTarget v (JString str) s)))
         = Some (Suc (nextFrameId s))"
    by (simp add: eq rescheduleStep_fields scrollTo_def schedule_def paused_fields)
  show "nextFrameId (animationFrame v ts (snd (scrollToTarget v (JString str) s)))
         = Suc (Suc (nextFrameId s))"
    by (simp add: eq rescheduleStep_fields scrollTo_def schedule_def paused_fields)
  show "scrollListener (animationFrame v ts (snd (scrollToTarget v (JString str) s)))
         = (alwaysTrack v \<and> scrollListener s)"
    by (simp add: eq rescheduleStep_fields scrollTo_def schedule_def paused_fields)
  show "scrollactiveItems (animationFrame v ts (snd (scrollToTarget v (JString str) s)))
         = scrollactiveItems s"
    by (simp add: eq rescheduleStep_def requestAnimationFrame_def scrollTo_def schedule_def
        paused_fields)
  show "getElementById (animationFrame v ts (snd (scrollToTarget v (JString str) s)))
         = getElementById s"
    by (simp add: eq rescheduleStep_def requestAnimationFrame_def scrollTo_def schedule_def
        paused_fields)
  show "scrollY (animationFrame v ts (snd (scrollToTarget v (JString str) s)))
         = scrollY s + e 0 * (getOffsetTop (getElementById s str) - scrollY s - offset v)"
    by (simp add: eq rescheduleStep_fields scrollTo_def perTick_def stepStart_def)
  show "timeouts (animationFrame v ts (snd (scrollToTarget v (JString str) s))) = timeouts s"
    by (simp add: eq rescheduleStep_fields scrollTo_def schedule_def paused_fields)
qed

lemma tracking_first_fields:
  "frames tracking_first
     = [(2, \<lparr>startingY = 0, difference = 1600, easing = (\<lambda>x. x), start = Some 1000\<rparr>)]"
  "AFRequestID tracking_first = Some 2"
  "nextFrameId tracking_first = 3"
  "scrollY tracking_first = 0"
  "getElementById tracking_first = page_elements"
  "scrollactiveItems tracking_first = Some [item_a, item_b, item_c]"
  using first_frame_run [of page_vm_tracking "\<lambda>x. x" page_mounted 1000 "''c''"]
  by (simp_all add: tracking_first_def page_vm_tracking_fields page_mounted_fields
      page_elements_def getOffsetTop_def)

lemma animating_first_fields:
  "frames animating_first
     = [(2, \<lparr>startingY = 0, difference = 1600, easing = (\<lambda>x. x), start = Some 1000\<rparr>)]"
  "AFRequestID animating_first = Some 2"
  "nextFrameId animating_first = 3"
  "scrollY animating_first = 0"
  "getElementById animating_first = page_elements"
  "scrollactiveItems animating_first = Some [item_a, item_b, item_c]"
  "scrollListener animating_first = False"
  "timeouts animating_first = []"
  using first_frame_run [of page_vm "\<lambda>x. x" page_mounted 1000 "''c''"]
  by (simp_all add: animating_first_def easingOf_page page_vm_fields page_mounted_fields
      page_elements_def getOffsetTop_def)

text \<open>
  Claim C1 says that a new scroll cancels the outstanding frame in every configuration.
  With \<open>alwaysTrack\<close> on, \<open>scrollToTarget\<close> skips the block that calls
  \<open>cancelAnimationFrame\<close>: on the concrete page, after a first scroll whose first frame ran
  (the rescheduled frame 2 is the one recorded in \<open>window.AFRequestID\<close>), a second scroll
  leaves two callbacks outstanding.
\<close>

theorem second_scroll_keeps_old_frame_counterexample:
  "alwaysTrack page_vm_tracking
   \<and> frames tracking_first
       = [(2, \<lparr>startingY = 0, difference = 1600, easing = (\<lambda>x. x), start = Some 1000\<rparr>)]
   \<and> AFRequestID tracking_first = Some 2
   \<and> (\<exists>s'. scrollToTarget page_vm_tracking (JString ''b'') tracking_first = (Return (), s')
          \<and> frames s'
              = [(2, \<lparr>startingY = 0, difference = 1600, easing = (\<lambda>x. x), start = Some 1000\<rparr>),
                 (3, \<lparr>startingY = 0, difference = 800, easing = (\<lambda>x. x), start = None\<rparr>)])"
proof -
  have "firstFrame (getElementById tracking_first ''b'') (\<lambda>x. x) tracking_first
        = (3, \<lparr>startingY = 0, difference = 800, easing = (\<lambda>x. x), start = None\<rparr>)"
    by (simp add: firstFrame_def tracking_first_fields page_elements_def getOffsetTop_def)
  then show ?thesis
    by (simp add: scrollToTarget_JString [OF page_vm_tracking_fields(4)] Let_def
        page_vm_tracking_fields tracking_first_fields schedule_def)
qed

text \<open>
  Claim C1, amended. \<open>scrollToTarget\<close> and \<open>scrollToTargetElement\<close> (when the easing
  package accepts the control points, and items are registered) schedule one new frame.
  With \<open>alwaysTrack\<close> off they first cancel the frame whose handle is recorded in
  \<open>window.AFRequestID\<close>, so when every outstanding callback is the recorded one, the new
  frame is the only one outstanding afterwards; a \<open>step\<close> that reschedules itself from a
  window with no other callback leaves exactly that situation. With \<open>alwaysTrack\<close> on
  nothing is cancelled and the new frame is added to the outstanding ones.
\<close>

theorem new_scroll_cancels_recorded_frame:
  assumes e: "easingOf v = Some e" and items: "scrollactiveItems s = Some items"
  shows "(\<exists>s'. scrollToTarget v (JString str) s = (Return (), s')
            \<and> frames s' = (if alwaysTrack v then frames s
                            else filter (\<lambda>f. Some (fst f) \<noteq> AFRequestID s) (frames s))
                           @ [firstFrame (getElementById s str) e s])
       \<and> (\<exists>s'. scrollToTargetElement v it s = (Return (), s')
            \<and> frames s' = (if alwaysTrack v then frames s
                            else filter (\<lambda>f. Some (fst f) \<noteq> AFRequestID s) (frames s))
                           @ [firstFrame (getElementById s (substr 1 (hash it))) e s])
       \<and> (\<not> alwaysTrack v \<and> (\<forall>f \<in> set (frames s). Some (fst f) = AFRequestID s) \<longrightarrow>
             frames (snd (scrollToTarget v (JString str) s))
               = [firstFrame (getElementById s str) e s]
             \<and> frames (snd (scrollToTargetElement v it s))
               = [firstFrame (getElementById s (substr 1 (hash it))) e s])
       \<and> (\<forall>c ts. frames s = [] \<and> stepProgress v c ts < duration v \<longrightarrow>
             (\<forall>f \<in> set (frames (snd (step v c ts s))).
                 Some (fst f) = AFRequestID (snd (step v c ts s)))
             \<and> (\<forall>f \<in> set (frames (snd (step_part000 v c ts s))).
                 Some (fst f) = AFRequestID (snd (step_part000 v c ts s))))"
proof (intro conjI allI impI ballI)
  show "\<exists>s'. scrollToTarget v (JString str) s = (Return (), s')
            \<and> frames s' = (if alwaysTrack v then frames s
                            else filter (\<lambda>f. Some (fst f) \<noteq> AFRequestID s) (frames s))
                           @ [firstFrame (getElementById s str) e s]"
    by (rule scrollToTarget_frames [OF e])
  show "\<exists>s'. scrollToTargetElement v it s = (Return (), s')
            \<and> frames s' = (if alwaysTrack v then frames s
                            else filter (\<lambda>f. Some (fst f) \<noteq> AFRequestID s) (frames s))
                           @ [firstFrame (getElementById s (substr 1 (hash it))) e s]"
    by (rule scrollToTargetElement_frames [OF e items])
next
  assume a: "\<not> alwaysTrack v \<and> (\<forall>f \<in> set (frames s). Some (fst f) = AFRequestID s)"
  then have gone: "filter (\<lambda>f. Some (fst f) \<noteq> AFRequestID s) (frames s) = []"
    by (simp add: filter_empty_conv)
  from scrollToTarget_frames [OF e, of str s] a gone
  show "frames (snd (scrollToTarget v (JString str) s)) = [firstFrame (getElementById s str) e s]"
    by auto
  from scrollToTargetElement_frames [OF e items, of it] a gone
  show "frames (snd (scrollToTargetElement v it s))
               = [firstFrame (getElementById s (substr 1 (hash it))) e s]"
    by auto
next
  fix c ts f
  assume "frames s = [] \<and> stepProgress v c ts < duration v"
    and "f \<in> set (frames (snd (step v c ts s)))"
  then show "Some (fst f) = AFRequestID (snd (step v c ts s))"
    by (simp add: step_reschedules rescheduleStep_fields scrollTo_def)
next
  fix c ts f
  assume "frames s = [] \<and> stepProgress v c ts < duration v"
    and "f \<in> set (frames (snd (step_part000 v c ts s)))"
  then show "Some (fst f) = AFRequestID (snd (step_part000 v c ts s))"
    by (simp add: step_part000_reschedules rescheduleStep_fields scrollTo_def)
qed

theorem new_scroll_cancels_recorded_frame_witness:
  "frames animating_first
     = [(2, \<lparr>startingY = 0, difference = 1600, easing = (\<lambda>x. x), start = Some 1000\<rparr>)]
   \<and> AFRequestID animating_first = Some 2
   \<and> frames (snd (scrollToTarget page_vm (JString ''b'') animating_first))
     = [(3, \<lparr>startingY = 0, difference = 800, easing = (\<lambda>x. x), start = None\<rparr>)]"
proof -
  have recorded: "\<not> alwaysTrack page_vm
      \<and> (\<forall>f \<in> set (frames animating_first). Some (fst f) = AFRequestID animating_first)"
    by (simp add: animating_first_fields page_vm_fields)
  have first: "firstFrame (getElementById animating_first ''b'') (\<lambda>x. x) animating_first
        = (3, \<lparr>startingY = 0, difference = 800, easing = (\<lambda>x. x), start = None\<rparr>)"
    by (simp add: firstFrame_def animating_first_fields page_elements_def getOffsetTop_def)
  from new_scroll_cancels_recorded_frame
         [OF easingOf_page animating_first_fields(6), of "''b''" item_b] recorded
  have "frames (snd (scrollToTarget page_vm (JString ''b'') animating_first))
        = [firstFrame (getElementById animating_first ''b'') (\<lambda>x. x) animating_first]"
    by blast
  then show ?thesis
    using first by (simp add: animating_first_fields)
qed

text \<open>The handle of the first frame of a scroll is not stored in \<open>window.AFRequestID\<close>
  (\<open>window.requestAnimationFrame(step)\<close> at the end of \<open>scrollToTarget\<close>), so a second
  scroll started before any frame ran cancels nothing, also with \<open>alwaysTrack\<close> off.\<close>

lemma first_frame_handle_not_recorded:
  "frames (snd (scrollToTarget page_vm (JString ''b'')
                  (snd (scrollToTarget page_vm (JString ''c'') page_mounted))))
   = [(1, \<lparr>startingY = 0, difference = 1600, easing = (\<lambda>x. x), start = None\<rparr>),
      (2, \<lparr>startingY = 0, difference = 800, easing = (\<lambda>x. x), start = None\<rparr>)]"
  by (simp add: scrollToTarget_JString [OF easingOf_page] Let_def page_vm_fields schedule_def
      paused_fields firstFrame_def page_mounted_fields page_elements_def getOffsetTop_def)

section \<open>The scroll listener during an animation\<close>







lemma page_vm_not_tracking: "\<not> alwaysTrack page_vm"
  by (simp add: page_vm_fields)







lemma step_completes:
  assumes "\<not> stepProgress v c ts < duration v" and "\<not> alwaysTrack v"
    and "getCurrentItem v (scrollTo (perTick v c ts) s) = (Return cur, s2)"
  shows "step v c ts s = (Return (), setTimeout 100 (addActiveClass v cur s2))"
  using assms by (simp add: step_def Let_def)

lemma inBand_scrollTo: "inBand v (scrollTo y s) = inBand v s"
  by (rule inBand_cong) (simp add: scrollTo_def)

lemma completion_scan:
  assumes items: "scrollactiveItems s = Some items"
    and scan: "getCurrentItem v (scrollTo y s) = (Return cur, s2)"
  shows "cur = currentItemAt v (scrollTo y s) items"
    and "flagged v (setTimeout d (addActiveClass v cur s2)) items
         = flagOf (lastWhere (inBand v s y) items)"
    and "s2 = cleared v items (scrollTo y s)"
proof -
  from items scan
  have loop: "getCurrentItem_forEach v y items Null (scrollTo y s) = (Return cur, s2)"
    by (simp add: getCurrentItem_def scrollTo_def)
  from getCurrentItem_forEach_Return [OF loop]
  have cur: "cur = chosen Null (lastWhere (inBand v s y) items)"
    and s2: "s2 = cleared v items (scrollTo y s)"
    by (simp_all add: inBand_scrollTo)
  show "cur = currentItemAt v (scrollTo y s) items"
    by (simp add: cur currentItemAt_def inBand_scrollTo) (simp add: scrollTo_def)
  show "s2 = cleared v items (scrollTo y s)" by (rule s2)
  have empty: "flagged v s2 items = {}" by (simp add: s2 flagged_cleared)
  have "flagged v (addActiveClass v (chosen Null (lastWhere (inBand v s y) items)) s2) items
        = (case lastWhere (inBand v s y) items of None \<Rightarrow> {} | Some it \<Rightarrow> {ident it})"
    by (rule flagged_addActiveClass [OF empty]) (auto simp: truthy_def dest: lastWhere_Some)
  moreover have "flagged v (setTimeout d (addActiveClass v cur s2)) items
                 = flagged v (addActiveClass v cur s2) items"
    by (rule flagged_classList) (simp add: setTimeout_def)
  ultimately show "flagged v (setTimeout d (addActiveClass v cur s2)) items
         = flagOf (lastWhere (inBand v s y) items)"
    by (simp add: cur flagOf_def)
qed

section \<open>Where the animation lands\<close>

text \<open>
  A frame whose clamped progress reaches the duration writes the landing position
  \<open>startingY + difference - offset\<close>, that is \<open>targetDistanceFromTop - offset\<close>, when the
  easing maps 1 to 1 and the duration is positive (\<open>step_lands\<close>), and schedules no
  further frame (\<open>step_lands_no_frame\<close>); for a monotone easing the written positions
  approach the landing position monotonically once \<open>start\<close> holds a nonzero timestamp
  (\<open>perTick_monotone\<close>).
\<close>

lemma animationFrame_reschedules:
  assumes "frames s = [(h, c)]" and "stepProgress v c ts < duration v"
  shows "frames (animationFrame v ts s) = [(nextFrameId s, c\<lparr>start := Some (stepStart c ts)\<rparr>)]"
    and "nextFrameId (animationFrame v ts s) = Suc (nextFrameId s)"
    and "scrollY (animationFrame v ts s) = perTick v c ts"
    and "AFRequestID (animationFrame v ts s) = Some (nextFrameId s)"
  by (simp_all only: animationFrame_single [OF assms(1)] step_reschedules [OF assms(2)] snd_conv)
     (simp_all add: rescheduleStep_fields scrollTo_def)

lemma step_lands:
  assumes d: "0 < duration v" and one: "easing c 1 = 1"
    and late: "duration v \<le> ts - stepStart c ts"
  shows "perTick v c ts = startingY c + difference c - offset v"
    and "\<not> stepProgress v c ts < duration v"
proof -
  from d late have "1 \<le> (ts - stepStart c ts) / duration v"
    by (simp add: le_divide_eq)
  then show "perTick v c ts = startingY c + difference c - offset v"
    by (simp add: perTick_def Let_def one)
  from late show "\<not> stepProgress v c ts < duration v"
    by (simp add: stepProgress_def Let_def)
qed

lemma step_lands_no_frame:
  assumes "\<not> stepProgress v c ts < duration v"
  shows "frames (snd (step v c ts s)) = frames s"
    and "frames (snd (step_part000 v c ts s)) = frames s"
    and "scrollY (snd (step v c ts s)) = perTick v c ts"
    and "scrollY (snd (step_part000 v c ts s)) = perTick v c ts"
  using assms getCurrentItem_fields(3,6) [of v "scrollTo (perTick v c ts) s"]
  by (cases "getCurrentItem v (scrollTo (perTick v c ts) s)";
      simp add: step_def step_part000_def Let_def scrollTo_def setTimeout_def
        addActiveClass_fields addScrollListener_def split: result.splits)+

lemma stepStart_cases:
  "start c = None \<Longrightarrow> stepStart c ts = ts"
  "start c = Some 0 \<Longrightarrow> stepStart c ts = ts"
  "start c = Some t0 \<Longrightarrow> t0 \<noteq> 0 \<Longrightarrow> stepStart c ts = t0"
  by (simp_all add: stepStart_def)

lemma page_scrolling_fields:
  "frames page_scrolling
     = [(1, \<lparr>startingY = 0, difference = 1600, easing = (\<lambda>x. x), start = None\<rparr>)]"
  "nextFrameId page_scrolling = 2"
  "scrollY page_scrolling = 0"
  by (simp_all add: page_scrolling_def scrollToTarget_JString [OF easingOf_page] Let_def
      page_vm_fields schedule_def paused_fields firstFrame_def page_mounted_fields
      page_elements_def getOffsetTop_def)

lemma animationFrame_completes:
  assumes "frames s = [(h, c)]" and "\<not> stepProgress v c ts < duration v"
  shows "frames (animationFrame v ts s) = []"
    and "scrollY (animationFrame v ts s) = perTick v c ts"
  by (simp_all only: animationFrame_single [OF assms(1)] step_lands_no_frame [OF assms(2)])
     simp

text \<open>
  Claim C5 says that a frame whose elapsed time is at least the duration writes
  \<open>targetDistanceFromTop - offset\<close> and that no frame follows it, for timestamps that start
  at 0. \<open>step\<close> records the first timestamp with \<open>if (!start) start = timestamp\<close>; a first
  timestamp of 0 is falsy, so the second frame records its own timestamp instead. On the
  concrete page (duration 600, target at 1600, offset 20, linear easing) the frames at
  0, 300 and 600 end, 600 ms after the first frame, at position 790 instead of 1580, with
  a further frame scheduled. With a nonzero first timestamp the animation lands
  (\<open>positive_timestamps_land\<close>).
\<close>

theorem zero_timestamp_restarts_clock:
  "getOffsetTop (page_elements ''c'') - offset page_vm = 1580
   \<and> duration page_vm = 600
   \<and> scrollY (animationFrames page_vm [0, 300, 600] page_scrolling) = 790
   \<and> frames (animationFrames page_vm [0, 300, 600] page_scrolling)
       = [(4, \<lparr>startingY = 0, difference = 1600, easing = (\<lambda>x. x), start = Some 300\<rparr>)]"
proof -
  let ?c0 = "\<lparr>startingY = 0, difference = 1600, easing = (\<lambda>x. x), start = None\<rparr>"
  let ?c1 = "\<lparr>startingY = 0, difference = 1600, easing = (\<lambda>x. x), start = Some (0::real)\<rparr>"
  let ?c2 = "\<lparr>startingY = 0, difference = 1600, easing = (\<lambda>x. x), start = Some (300::real)\<rparr>"
  let ?f1 = "animationFrame page_vm 0 page_scrolling"
  let ?f2 = "animationFrame page_vm 300 ?f1"
  let ?f3 = "animationFrame page_vm 600 ?f2"
  have p1: "stepProgress page_vm ?c0 0 < duration page_vm"
    by (simp add: stepProgress_def stepStart_def page_vm_fields)
  have f1: "frames ?f1 = [(2, ?c1)]" "nextFrameId ?f1 = 3"
    using animationFrame_reschedules [OF page_scrolling_fields(1) p1]
    by (simp_all add: page_scrolling_fields stepStart_def)
  have p2: "stepProgress page_vm ?c1 300 < duration page_vm"
    by (simp add: stepProgress_def stepStart_def page_vm_fields)
  have f2: "frames ?f2 = [(3, ?c2)]" "nextFrameId ?f2 = 4"
    using animationFrame_reschedules [OF f1(1) p2]
    by (simp_all add: f1 stepStart_def)
  have p3: "stepProgress page_vm ?c2 600 < duration page_vm"
    by (simp add: stepProgress_def stepStart_def page_vm_fields)
  have f3: "frames ?f3 = [(4, ?c2)]" "scrollY ?f3 = perTick page_vm ?c2 600"
    using animationFrame_reschedules [OF f2(1) p3]
    by (simp_all add: f2 stepStart_def)
  have "perTick page_vm ?c2 600 = 790"
    by (simp add: perTick_def stepStart_def page_vm_fields)
  with f3 show ?thesis
    by (simp add: page_vm_fields page_elements_def getOffsetTop_def)
qed

lemma positive_timestamps_land:
  "scrollY (animationFrames page_vm [1000, 1300, 1600] page_scrolling) = 1580
   \<and> frames (animationFrames page_vm [1000, 1300, 1600] page_scrolling) = []"
proof -
  let ?c0 = "\<lparr>startingY = 0, difference = 1600, easing = (\<lambda>x. x), start = None\<rparr>"
  let ?c1 = "\<lparr>startingY = 0, difference = 1600, easing = (\<lambda>x. x), start = Some (1000::real)\<rparr>"
  let ?f1 = "animationFrame page_vm 1000 page_scrolling"
  let ?f2 = "animationFrame page_vm 1300 ?f1"
  let ?f3 = "animationFrame page_vm 1600 ?f2"
  have p1: "stepProgress page_vm ?c0 1000 < duration page_vm"
    by (simp add: stepProgress_def stepStart_def page_vm_fields)
  have f1: "frames ?f1 = [(2, ?c1)]" "nextFrameId ?f1 = 3"
    using animationFrame_reschedules [OF page_scrolling_fields(1) p1]
    by (simp_all add: page_scrolling_fields stepStart_def)
  have p2: "stepProgress page_vm ?c1 1300 < duration page_vm"
    by (simp add: stepProgress_def stepStart_def page_vm_fields)
  have f2: "frames ?f2 = [(3, ?c1)]" "scrollY ?f2 = perTick page_vm ?c1 1300"
    using animationFrame_reschedules [OF f1(1) p2]
    by (simp_all add: f1 stepStart_def)
  have p3: "\<not> stepProgress page_vm ?c1 1600 < duration page_vm"
    by (simp add: stepProgress_def stepStart_def page_vm_fields)
  have "perTick page_vm ?c1 1600 = 1580"
    by (simp add: perTick_def stepStart_def page_vm_fields)
  with animationFrame_completes [OF f2(1) p3] show ?thesis
    by simp
qed

lemma perTick_progressRatio:
  "perTick v c ts = startingY c + easing c (progressRatio v c ts) * (difference c - offset v)"
  by (simp add: perTick_def progressRatio_def Let_def)

lemma progressRatio_mono:
  assumes "0 < duration v" and "start c = Some t0" and "t0 \<noteq> 0" and "t0 \<le> ts" and "ts \<le> ts'"
  shows "0 \<le> progressRatio v c ts" and "progressRatio v c ts \<le> progressRatio v c ts'"
    and "progressRatio v c ts' \<le> 1"
  using assms
  by (simp_all add: progressRatio_def stepStart_cases(3) divide_right_mono)

lemma perTick_monotone:
  assumes d: "0 < duration v" and mono: "mono_on {0..1} (easing c)" and one: "easing c 1 = 1"
    and st: "start c = Some t0" "t0 \<noteq> 0" and order: "t0 \<le> ts" "ts \<le> ts'"
  shows "\<bar>(startingY c + difference c - offset v) - perTick v c ts'\<bar>
         \<le> \<bar>(startingY c + difference c - offset v) - perTick v c ts\<bar>"
proof -
  let ?p = "progressRatio v c ts" and ?p' = "progressRatio v c ts'"
  let ?D = "difference c - offset v"
  note r = progressRatio_mono [OF d st order]
  have in01: "?p \<in> {0..1}" "?p' \<in> {0..1}" "(1::real) \<in> {0..1}"
    using r by auto
  have e1: "easing c ?p \<le> easing c ?p'"
    by (rule mono_onD [OF mono in01(1) in01(2) r(2)])
  have e2: "easing c ?p' \<le> 1"
    using mono_onD [OF mono in01(2) in01(3) r(3)] by (simp add: one)
  have a: "(startingY c + difference c - offset v) - perTick v c ts = (1 - easing c ?p) * ?D"
    and b: "(startingY c + difference c - offset v) - perTick v c ts' = (1 - easing c ?p') * ?D"
    by (simp_all add: perTick_progressRatio algebra_simps)
  have "\<bar>(1 - easing c ?p') * ?D\<bar> = (1 - easing c ?p') * \<bar>?D\<bar>"
    using e2 by (simp add: abs_mult)
  also have "\<dots> \<le> (1 - easing c ?p) * \<bar>?D\<bar>"
    using e1 by (simp add: mult_right_mono)
  also have "\<dots> = \<bar>(1 - easing c ?p) * ?D\<bar>"
    using e1 e2 by (simp add: abs_mult)
  finally show ?thesis by (simp only: a b)
qed

section \<open>The scroll listener through a whole scroll\<close>






lemma onScroll_fields:
  "scrollListener (snd (onScroll v ev s)) = scrollListener s"
  "timeouts (snd (onScroll v ev s)) = timeouts s"
  using getCurrentItem_fields(4,5) [of v s]
  by (cases "getCurrentItem v s";
      simp add: onScroll_def Let_def addActiveClass_fields emit_def split: result.splits)+









lemma unresolved_cong:
  "getElementById s1 = getElementById s \<Longrightarrow> unresolved s1 = unresolved s"
  by (simp add: unresolved_def fun_eq_iff)

lemma getCurrentItem_forEach_returns:
  "\<forall>it \<in> set items. \<not> unresolved s it \<Longrightarrow>
   \<exists>cur s2. getCurrentItem_forEach v y items cur0 s = (Return cur, s2)"
proof (induction items arbitrary: cur0 s)
  case Nil
  show ?case by simp
next
  case (Cons it rest)
  let ?s1 = "classList_remove (ident it) (activeClass v) s"
  from Cons.prems obtain t where t: "getElementById s (substr 1 (hash it)) = Some t"
    by (auto simp: unresolved_def)
  have "unresolved ?s1 = unresolved s"
    by (rule unresolved_cong) (rule getElementById_classList_remove)
  with Cons.prems have rest: "\<forall>it \<in> set rest. \<not> unresolved ?s1 it" by simp
  from t obtain cur1 where
    "getCurrentItem_forEach v y (it # rest) cur0 s = getCurrentItem_forEach v y rest cur1 ?s1"
    by (simp add: Let_def)
  with Cons.IH [OF rest, of cur1] show ?case by simp
qed

lemma getCurrentItem_returns:
  assumes "scrollactiveItems s = Some items" and "\<forall>it \<in> set items. \<not> unresolved s it"
  shows "\<exists>cur s2. getCurrentItem v (scrollTo y s) = (Return cur, s2)"
proof -
  have "unresolved (scrollTo y s) = unresolved s"
    by (rule unresolved_cong) (simp add: scrollTo_def)
  with assms(2) have "\<forall>it \<in> set items. \<not> unresolved (scrollTo y s) it" by simp
  from getCurrentItem_forEach_returns [OF this, of v y Null] assms(1)
  show ?thesis by (simp add: getCurrentItem_def scrollTo_def)
qed



lemma page_scrolling_detached:
  "scrollListener page_scrolling = False"
  "timeouts page_scrolling = []"
  by (simp_all add: page_scrolling_def scrollToTarget_JString [OF easingOf_page] Let_def
      page_vm_fields schedule_def paused_fields page_mounted_fields)

lemma animating_first_resolved:
  "\<forall>it \<in> set [item_a, item_b, item_c]. \<not> unresolved (animating_first\<lparr>frames := []\<rparr>) it"
  by (simp add: unresolved_def animating_first_fields item_a_def item_b_def item_c_def
      substr_def page_elements_def)

lemma animating_done_step:
  "animating_done
   = snd (step page_vm \<lparr>startingY = 0, difference = 1600, easing = (\<lambda>x. x), start = Some 1000\<rparr>
            1600 (animating_first\<lparr>frames := []\<rparr>))"
  by (simp only: animating_done_def animationFrame_single [OF animating_first_fields(1)])

lemma animating_done_fields:
  "scrollListener animating_done = False"
  "timeouts animating_done = [100]"
  "frames animating_done = []"
  "scrollY animating_done = 1580"
  "nextFrameId animating_done = 3"
  "AFRequestID animating_done = Some 2"
  "getElementById animating_done = page_elements"
proof -
  let ?c = "\<lparr>startingY = 0, difference = 1600, easing = (\<lambda>x. x), start = Some (1000::real)\<rparr>"
  let ?s1 = "animating_first\<lparr>frames := []\<rparr>"
  let ?items = "[item_a, item_b, item_c]"
  have fin: "\<not> stepProgress page_vm ?c 1600 < duration page_vm"
    by (simp add: stepProgress_def stepStart_def page_vm_fields)
  have y: "perTick page_vm ?c 1600 = 1580"
    by (simp add: perTick_def stepStart_def page_vm_fields)
  have items: "scrollactiveItems ?s1 = Some ?items"
    by (simp add: animating_first_fields)
  from getCurrentItem_returns [OF items animating_first_resolved, of page_vm 1580]
  obtain cur s2 where scan: "getCurrentItem page_vm (scrollTo (perTick page_vm ?c 1600) ?s1)
                             = (Return cur, s2)"
    by (auto simp only: y)
  have s2: "s2 = cleared page_vm ?items (scrollTo (perTick page_vm ?c 1600) ?s1)"
    by (rule completion_scan(3) [OF items scan])
  have eq: "animating_done = setTimeout 100 (addActiveClass page_vm cur s2)"
    by (simp only: animating_done_step step_completes [OF fin page_vm_not_tracking scan] snd_conv)
  show "scrollListener animating_done = False"
    "timeouts animating_done = [100]"
    "frames animating_done = []"
    "scrollY animating_done = 1580"
    "nextFrameId animating_done = 3"
    "AFRequestID animating_done = Some 2"
    "getElementById animating_done = page_elements"
    by (simp_all add: eq setTimeout_def addActiveClass_fields s2 cleared_fields scrollTo_def y
        animating_first_fields)
qed

text \<open>The timeout that a completion frame sets is never cleared. On the concrete page, a
  second scroll started while the timeout of the first is pending is running (its first
  frame is scheduled, the listener is detached) when the timeout fires and attaches the
  listener.\<close>

lemma stale_timeout_reattaches:
  "timeouts animating_done = [100]
   \<and> \<not> scrollListener (snd (scrollToTarget page_vm (JString ''a'') animating_done))
   \<and> frames (snd (scrollToTarget page_vm (JString ''a'') animating_done))
       = [(3, \<lparr>startingY = 1580, difference = - 1580, easing = (\<lambda>x. x), start = None\<rparr>)]
   \<and> scrollListener (timeoutFires (snd (scrollToTarget page_vm (JString ''a'') animating_done)))
   \<and> frames (timeoutFires (snd (scrollToTarget page_vm (JString ''a'') animating_done)))
       = [(3, \<lparr>startingY = 1580, difference = - 1580, easing = (\<lambda>x. x), start = None\<rparr>)]"
  by (simp add: scrollToTarget_JString [OF easingOf_page] Let_def page_vm_fields schedule_def
      paused_fields firstFrame_def animating_done_fields page_elements_def getOffsetTop_def
      timeoutFires_def addScrollListener_def)


end
